theory Spec2Isabelle
  imports Main "HOL-Library.AList"
begin

section \<open>Python values, dictionaries and the object store\<close>

text \<open>
  The option descriptors of \<^verbatim>\<open>ArgumentParser.py\<close> are Python dictionaries with string
  keys. Their values are taken from the scalars the module works with: \<^verbatim>\<open>None\<close>,
  booleans, integers and strings (over ASCII). A dictionary is an association list read
  with \<open>map_of\<close>; descriptors are objects, so a list of descriptors is a list of
  addresses into a store, and a write through one reference is seen through every other.
\<close>

datatype pyval = PNone | PBool bool | PInt int | PStr string

type_synonym dict = "(string \<times> pyval) list"

type_synonym addr = nat

type_synonym heap = "addr \<Rightarrow> dict"

datatype exn =
    KeyError string
  | TypeError
  | ValueError
  | AttributeError
  | ArgumentError
  | Exception
  | FormatNotCovered
  | SystemExit int

text \<open>\<^verbatim>\<open>d[k]\<close>, \<^verbatim>\<open>k in d\<close> and \<^verbatim>\<open>d[k] = v\<close>.\<close>

definition dict_get :: "dict \<Rightarrow> string \<Rightarrow> exn + pyval" where
  "dict_get d k = (case map_of d k of None \<Rightarrow> Inl (KeyError k) | Some v \<Rightarrow> Inr v)"

definition dict_has :: "dict \<Rightarrow> string \<Rightarrow> bool" where
  "dict_has d k = (map_of d k \<noteq> None)"

definition dict_set :: "dict \<Rightarrow> string \<Rightarrow> pyval \<Rightarrow> dict" where
  "dict_set d k v = AList.update k v d"

text \<open>\<^verbatim>\<open>h[a][k] = v\<close> on the store: the object at \<open>a\<close> is changed in place.\<close>

definition store_set :: "heap \<Rightarrow> addr \<Rightarrow> string \<Rightarrow> pyval \<Rightarrow> heap" where
  "store_set h a k v = h(a := dict_set (h a) k v)"

section \<open>\<^verbatim>\<open>str\<close>, \<^verbatim>\<open>len\<close>, \<^verbatim>\<open>upper\<close> and the \<^verbatim>\<open>%\<close> operator\<close>

definition digit_char :: "nat \<Rightarrow> char" where
  "digit_char n = char_of (48 + n)"

fun dec_nat :: "nat \<Rightarrow> string" where
  "dec_nat n = (if n < 10 then [digit_char n] else dec_nat (n div 10) @ [digit_char (n mod 10)])"

declare dec_nat.simps [simp del]

definition str_int :: "int \<Rightarrow> string" where
  "str_int i = (if i < 0 then CHR ''-'' # dec_nat (nat (- i)) else dec_nat (nat i))"

fun py_str :: "pyval \<Rightarrow> string" where
  "py_str PNone = ''None''"
| "py_str (PBool b) = (if b then ''True'' else ''False'')"
| "py_str (PInt i) = str_int i"
| "py_str (PStr s) = s"

fun py_len :: "pyval \<Rightarrow> exn + nat" where
  "py_len (PStr s) = Inr (length s)"
| "py_len v = Inl TypeError"

definition upper_char :: "char \<Rightarrow> char" where
  "upper_char c =
     (case map_of (zip ''abcdefghijklmnopqrstuvwxyz'' ''ABCDEFGHIJKLMNOPQRSTUVWXYZ'') c of
        None \<Rightarrow> c
      | Some u \<Rightarrow> u)"

text \<open>\<^verbatim>\<open>v.upper()\<close>: only strings have the method.\<close>

fun py_upper :: "pyval \<Rightarrow> exn + string" where
  "py_upper (PStr s) = Inr (map upper_char s)"
| "py_upper v = Inl AttributeError"

definition is_digit :: "char \<Rightarrow> bool" where
  "is_digit c = (48 \<le> (of_char c :: nat) \<and> (of_char c :: nat) \<le> 57)"

definition digit_val :: "char \<Rightarrow> nat" where
  "digit_val c = (of_char c :: nat) - 48"

definition ljust :: "nat \<Rightarrow> string \<Rightarrow> string" where
  "ljust w s = s @ replicate (w - length s) CHR '' ''"

definition rjust :: "nat \<Rightarrow> string \<Rightarrow> string" where
  "rjust w s = replicate (w - length s) CHR '' '' @ s"

definition emit :: "string \<Rightarrow> exn + string \<Rightarrow> exn + string" where
  "emit s r = (case r of Inl e \<Rightarrow> Inl e | Inr t \<Rightarrow> Inr (s @ t))"

text \<open>
  \<^verbatim>\<open>template % args\<close> for the directives the module's own templates use: literal
  text, \<^verbatim>\<open>%%\<close>, and \<^verbatim>\<open>%s\<close> with an optional \<^verbatim>\<open>-\<close> flag and an optional decimal
  width. The template is read left to right. A \<^verbatim>\<open>%\<close> at the end of the template is
  Python's ValueError (incomplete format); a directive with no argument left, or
  arguments left over at the end, are Python's TypeError. Any other directive is
  reported as \<open>FormatNotCovered\<close>. A single non-tuple right operand is the one-element
  argument list.
\<close>

datatype fstate = Lit | Pct | Spec bool nat

fun fmt :: "fstate \<Rightarrow> string \<Rightarrow> pyval list \<Rightarrow> exn + string" where
  "fmt Lit [] args = (if args = [] then Inr [] else Inl TypeError)"
| "fmt Lit (c # cs) args =
     (if c = CHR ''%'' then fmt Pct cs args else emit [c] (fmt Lit cs args))"
| "fmt Pct [] args = Inl ValueError"
| "fmt Pct (c # cs) args =
     (if c = CHR ''%'' then emit ''%'' (fmt Lit cs args)
      else if c = CHR ''-'' then fmt (Spec True 0) cs args
      else if is_digit c then fmt (Spec False (digit_val c)) cs args
      else if c = CHR ''s'' then
        (case args of [] \<Rightarrow> Inl TypeError
         | v # vs \<Rightarrow> emit (py_str v) (fmt Lit cs vs))
      else Inl FormatNotCovered)"
| "fmt (Spec left w) [] args = Inl ValueError"
| "fmt (Spec left w) (c # cs) args =
     (if is_digit c then fmt (Spec left (10 * w + digit_val c)) cs args
      else if c = CHR ''s'' then
        (case args of [] \<Rightarrow> Inl TypeError
         | v # vs \<Rightarrow>
             emit (if left then ljust w (py_str v) else rjust w (py_str v)) (fmt Lit cs vs))
      else Inl FormatNotCovered)"

definition py_format :: "string \<Rightarrow> pyval list \<Rightarrow> exn + string" where
  "py_format template args = fmt Lit template args"

text \<open>\<^verbatim>\<open>os.path.basename\<close>: the part after the last slash.\<close>

definition basename :: "string \<Rightarrow> string" where
  "basename p = rev (takeWhile (\<lambda>c. c \<noteq> CHR ''/'') (rev p))"

section \<open>Module globals\<close>

definition MSG_SYNTAX_ERROR :: string where
  "MSG_SYNTAX_ERROR = ''Invalid command line. Use --help to display available options.''"

definition MSG_USAGE_HELP :: string where
  "MSG_USAGE_HELP = ''Usage: %s [OPTION]... %s'' @ [CHR 0x0A, CHR 0x0A] @ ''Options:''"

definition EXITCODE_ERROR :: int where
  "EXITCODE_ERROR = 2"

definition EXITCODE_USAGE :: int where
  "EXITCODE_USAGE = 0"

text \<open>
  \<^verbatim>\<open>OPT_DEFAULT_HELP\<close> is one dictionary object created when the module is loaded.
  \<open>OPT_DEFAULT_HELP\<close> is its address in the store and \<open>OPT_DEFAULT_HELP_dict\<close> the
  contents it is created with.
\<close>

definition OPT_DEFAULT_HELP :: addr where
  "OPT_DEFAULT_HELP = 0"

definition OPT_DEFAULT_HELP_dict :: dict where
  "OPT_DEFAULT_HELP_dict =
     [(''type'', PStr ''help''), (''name'', PStr ''help''), (''short'', PStr ''-h''),
      (''long'', PStr ''--help''), (''help'', PStr ''Display this message'')]"

section \<open>The underlying engine: registration\<close>

text \<open>
  A call of the engine's \<^verbatim>\<open>add_argument\<close>: the positional arguments of the call
  (one name, or a short and a long flag) and the keyword arguments the module passes.
  A keyword that is not passed is \<open>None\<close>; \<^verbatim>\<open>nargs=None\<close> is \<open>Some PNone\<close>.
\<close>

datatype action_kind = Store | StoreTrue | Help

record add_call =
  c_flags :: "pyval list"
  c_nargs :: "pyval option"
  c_action :: action_kind
  c_dest :: "pyval option"
  c_default :: "pyval option"

text \<open>
  Modelled from the spec: the underlying engine (Python's \<^verbatim>\<open>argparse\<close>) is an external
  collaborator "supplying flag/positional registration with default values and arity".
  Its registration is a parameter of the model: given the registrations accepted so
  far and a new call, it either raises or accepts. An accepted call is appended to the
  engine's list of actions.
\<close>

type_synonym engine = "add_call list \<Rightarrow> add_call \<Rightarrow> exn option"

text \<open>
  Modelled from the spec: the engine's \<^verbatim>\<open>add_argument\<close>, inherited by the class. It
  raises what the engine's checks raise for the call and registers the action
  otherwise. It does not touch the descriptors.
\<close>

definition add_argument ::
  "engine \<Rightarrow> add_call \<Rightarrow> heap \<Rightarrow> add_call list \<Rightarrow> exn option \<times> heap \<times> add_call list" where
  "add_argument eng c h acts =
     (case eng acts c of Some e \<Rightarrow> (Some e, h, acts) | None \<Rightarrow> (None, h, acts @ [c]))"

section \<open>Class ArgumentParser: the constructor\<close>

record parser =
  options :: "addr list"
  msg_error :: string
  exc_error :: int
  msg_usage :: string
  exc_usage :: int
  opt_help :: "addr option"
  actions :: "add_call list"

text \<open>
  Lines 101 to 105: the first descriptor whose type is \<^verbatim>\<open>"help"\<close>. A descriptor
  without a \<^verbatim>\<open>"type"\<close> key met before that raises KeyError.
\<close>

fun find_help :: "heap \<Rightarrow> addr list \<Rightarrow> exn + addr option" where
  "find_help h [] = Inr None"
| "find_help h (a # as) =
     (case dict_get (h a) ''type'' of
        Inl e \<Rightarrow> Inl e
      | Inr t \<Rightarrow> if t = PStr ''help'' then Inr (Some a) else find_help h as)"

text \<open>
  Sequencing: a value that may be an exception, used by the rest of a statement
  sequence. On an exception the store and the engine are returned as they are at that
  point: what was written before an exception stays written.
\<close>

definition on_value ::
  "exn + 'a \<Rightarrow> heap \<Rightarrow> add_call list
     \<Rightarrow> ('a \<Rightarrow> exn option \<times> heap \<times> add_call list) \<Rightarrow> exn option \<times> heap \<times> add_call list" where
  "on_value r h acts k = (case r of Inl e \<Rightarrow> (Some e, h, acts) | Inr v \<Rightarrow> k v)"

definition and_then :: "exn + 'a \<Rightarrow> ('a \<Rightarrow> exn + 'b) \<Rightarrow> exn + 'b" where
  "and_then r k = (case r of Inl e \<Rightarrow> Inl e | Inr v \<Rightarrow> k v)"

text \<open>
  The four branches of the registration loop (lines 114 to 125). Each computes the
  \<^verbatim>\<open>syntax\<close> string, writes it into the descriptor, and then calls the engine.
  The second reads of \<^verbatim>\<open>option["short"]\<close> and \<^verbatim>\<open>option["long"]\<close> follow a write of
  the key \<^verbatim>\<open>"syntax"\<close> only and see the values of the first reads.
\<close>

definition add_normal ::
  "engine \<Rightarrow> addr \<Rightarrow> heap \<Rightarrow> add_call list \<Rightarrow> exn option \<times> heap \<times> add_call list" where
  "add_normal eng a h acts =
     on_value (dict_get (h a) ''short'') h acts (\<lambda>s.
     on_value (dict_get (h a) ''long'') h acts (\<lambda>l.
     on_value (dict_get (h a) ''arg'') h acts (\<lambda>g.
     on_value (py_format ''%s, %s=%s'' [s, l, g]) h acts (\<lambda>syn.
     let h' = store_set h a ''syntax'' (PStr syn) in
     on_value (dict_get (h' a) ''name'') h' acts (\<lambda>n.
     on_value (if dict_has (h' a) ''default'' then dict_get (h' a) ''default'' else Inr PNone)
       h' acts (\<lambda>d.
     add_argument eng
       \<lparr>c_flags = [s, l], c_nargs = Some (PStr ''?''), c_action = Store,
        c_dest = Some n, c_default = Some d\<rparr> h' acts))))))"

definition add_switch ::
  "engine \<Rightarrow> addr \<Rightarrow> heap \<Rightarrow> add_call list \<Rightarrow> exn option \<times> heap \<times> add_call list" where
  "add_switch eng a h acts =
     on_value (dict_get (h a) ''short'') h acts (\<lambda>s.
     on_value (dict_get (h a) ''long'') h acts (\<lambda>l.
     on_value (py_format ''%s, %s'' [s, l]) h acts (\<lambda>syn.
     let h' = store_set h a ''syntax'' (PStr syn) in
     on_value (dict_get (h' a) ''name'') h' acts (\<lambda>n.
     add_argument eng
       \<lparr>c_flags = [s, l], c_nargs = None, c_action = StoreTrue,
        c_dest = Some n, c_default = Some (PBool False)\<rparr> h' acts))))"

text \<open>
  \<^verbatim>\<open>isinstance(option["nargs"], int) and option["nargs"] == 1\<close>: Python's \<^verbatim>\<open>bool\<close> is a
  subclass of \<^verbatim>\<open>int\<close> and \<^verbatim>\<open>True == 1\<close>.
\<close>

definition is_int_one :: "pyval \<Rightarrow> bool" where
  "is_int_one v = (v = PInt 1 \<or> v = PBool True)"

definition add_positional ::
  "engine \<Rightarrow> addr \<Rightarrow> heap \<Rightarrow> add_call list \<Rightarrow> exn option \<times> heap \<times> add_call list" where
  "add_positional eng a h acts =
     on_value (dict_get (h a) ''name'') h acts (\<lambda>n.
     on_value (py_format ''%s'' [n]) h acts (\<lambda>syn.
     let h' = store_set h a ''syntax'' (PStr syn) in
     on_value (dict_get (h' a) ''nargs'') h' acts (\<lambda>k.
     add_argument eng
       \<lparr>c_flags = [n], c_nargs = Some (if is_int_one k then PNone else k),
        c_action = Store, c_dest = None, c_default = None\<rparr> h' acts)))"

definition add_help ::
  "engine \<Rightarrow> addr \<Rightarrow> heap \<Rightarrow> add_call list \<Rightarrow> exn option \<times> heap \<times> add_call list" where
  "add_help eng a h acts =
     on_value (dict_get (h a) ''short'') h acts (\<lambda>s.
     on_value (dict_get (h a) ''long'') h acts (\<lambda>l.
     on_value (py_format ''%s, %s'' [s, l]) h acts (\<lambda>syn.
     let h' = store_set h a ''syntax'' (PStr syn) in
     add_argument eng
       \<lparr>c_flags = [s, l], c_nargs = None, c_action = Help,
        c_dest = None, c_default = None\<rparr> h' acts)))"

text \<open>The body of the loop of lines 113 to 127 for one descriptor.\<close>

definition add_option ::
  "engine \<Rightarrow> addr \<Rightarrow> heap \<Rightarrow> add_call list \<Rightarrow> exn option \<times> heap \<times> add_call list" where
  "add_option eng a h acts =
     (case dict_get (h a) ''type'' of
        Inl e \<Rightarrow> (Some e, h, acts)
      | Inr t \<Rightarrow>
          if t = PStr ''normal'' then add_normal eng a h acts
          else if t = PStr ''switch'' then add_switch eng a h acts
          else if t = PStr ''positional'' then add_positional eng a h acts
          else if t = PStr ''help'' then add_help eng a h acts
          else (Some Exception, h, acts))"

fun add_options ::
  "engine \<Rightarrow> addr list \<Rightarrow> heap \<Rightarrow> add_call list \<Rightarrow> exn option \<times> heap \<times> add_call list" where
  "add_options eng [] h acts = (None, h, acts)"
| "add_options eng (a # as) h acts =
     (case add_option eng a h acts of
        (Some e, h', acts') \<Rightarrow> (Some e, h', acts')
      | (None, h', acts') \<Rightarrow> add_options eng as h' acts')"

text \<open>
  \<^verbatim>\<open>__init__\<close>. The result is the exception raised, if any, the store, and the parser
  object as far as it was built. \<open>options\<close> is the caller's list object after the
  in-place \<^verbatim>\<open>append\<close>. A descriptor found by the first loop has a \<^verbatim>\<open>"type"\<close> key, so it
  is a non-empty dictionary and \<^verbatim>\<open>not self.opt_help\<close> is false for it.
\<close>

definition ArgumentParser_init ::
  "engine \<Rightarrow> addr list \<Rightarrow> string \<Rightarrow> int \<Rightarrow> string \<Rightarrow> int \<Rightarrow> heap
     \<Rightarrow> exn option \<times> heap \<times> parser" where
  "ArgumentParser_init eng opts m_err x_err m_use x_use h =
     (case find_help h opts of
        Inl e \<Rightarrow>
          (Some e, h,
           \<lparr>options = opts, msg_error = m_err, exc_error = x_err, msg_usage = m_use,
            exc_usage = x_use, opt_help = None, actions = []\<rparr>)
      | Inr found \<Rightarrow>
          let oh = (case found of Some a \<Rightarrow> a | None \<Rightarrow> OPT_DEFAULT_HELP);
              opts' = (case found of Some a \<Rightarrow> opts | None \<Rightarrow> opts @ [OPT_DEFAULT_HELP])
          in case add_options eng opts' h [] of
               (r, h', acts) \<Rightarrow>
                 (r, h',
                  \<lparr>options = opts', msg_error = m_err, exc_error = x_err, msg_usage = m_use,
                   exc_usage = x_use, opt_help = Some oh, actions = acts\<rparr>))"

section \<open>\<^verbatim>\<open>print_help\<close>\<close>

text \<open>\<^verbatim>\<open>option["display"].upper() if "display" in option else option["name"].upper()\<close>\<close>

definition display_name :: "dict \<Rightarrow> exn + string" where
  "display_name d =
     (if dict_has d ''display'' then and_then (dict_get d ''display'') py_upper
      else and_then (dict_get d ''name'') py_upper)"

text \<open>
  The number of rounds of \<^verbatim>\<open>for i in range(0, v)\<close>: none for a negative integer; a
  boolean counts as 0 or 1; a string or \<^verbatim>\<open>None\<close> is a TypeError.
\<close>

fun py_range :: "pyval \<Rightarrow> exn + nat" where
  "py_range (PInt n) = Inr (nat n)"
| "py_range (PBool b) = Inr (if b then 1 else 0)"
| "py_range v = Inl TypeError"

text \<open>The inner loop of lines 148 to 150, on the string \<^verbatim>\<open>positional\<close> built so far.\<close>

fun repeat_name :: "nat \<Rightarrow> dict \<Rightarrow> string \<Rightarrow> exn + string" where
  "repeat_name 0 d positional = Inr positional"
| "repeat_name (Suc k) d positional =
     and_then (display_name d) (\<lambda>u.
     and_then (py_format ''%s '' [PStr u]) (\<lambda>t.
     repeat_name k d (positional @ t)))"

text \<open>The chain of lines 138 to 150 for one positional descriptor.\<close>

definition usage_segment :: "dict \<Rightarrow> string \<Rightarrow> exn + string" where
  "usage_segment d positional =
     and_then (dict_get d ''nargs'') (\<lambda>n.
       if n = PStr ''?'' then
         and_then (display_name d) (\<lambda>u.
         and_then (py_format ''[%s]'' [PStr u]) (\<lambda>t. Inr (positional @ t)))
       else if n = PStr ''+'' then
         and_then (display_name d) (\<lambda>u.
         and_then (py_format ''%s...'' [PStr u]) (\<lambda>t. Inr (positional @ t)))
       else if n = PStr ''*'' then
         and_then (display_name d) (\<lambda>u.
         and_then (py_format ''[%s]...'' [PStr u]) (\<lambda>t. Inr (positional @ t)))
       else and_then (py_range n) (\<lambda>k. repeat_name k d positional))"

text \<open>The loop of lines 136 to 151; line 151 adds one space after every positional.\<close>

fun positional_usage :: "heap \<Rightarrow> addr list \<Rightarrow> string \<Rightarrow> exn + string" where
  "positional_usage h [] positional = Inr positional"
| "positional_usage h (a # as) positional =
     and_then (dict_get (h a) ''type'') (\<lambda>t.
       if t = PStr ''positional'' then
         and_then (usage_segment (h a) positional) (\<lambda>p. positional_usage h as (p @ '' ''))
       else positional_usage h as positional)"

text \<open>The loop of lines 155 to 158, over every descriptor of the list.\<close>

fun max_syntax :: "heap \<Rightarrow> addr list \<Rightarrow> nat \<Rightarrow> exn + nat" where
  "max_syntax h [] maxlen = Inr maxlen"
| "max_syntax h (a # as) maxlen =
     and_then (dict_get (h a) ''syntax'') (\<lambda>s.
     and_then (py_len s) (\<lambda>n.
     max_syntax h as (if n > maxlen then n else maxlen)))"

text \<open>
  Lines 161 and 162 for one descriptor: the line printed, or nothing for a positional.
\<close>

definition option_line :: "dict \<Rightarrow> string \<Rightarrow> exn + string option" where
  "option_line d template =
     and_then (dict_get d ''type'') (\<lambda>t.
       if t \<noteq> PStr ''positional'' then
         and_then (dict_get d ''syntax'') (\<lambda>s.
         and_then (dict_get d ''help'') (\<lambda>hp.
         and_then (py_format template [s, hp]) (\<lambda>line. Inr (Some line))))
       else Inr None)"

text \<open>The loop of lines 160 to 162; \<open>out\<close> holds the lines printed so far.\<close>

fun print_option_lines ::
  "heap \<Rightarrow> string \<Rightarrow> addr list \<Rightarrow> string list \<Rightarrow> string list \<times> exn option" where
  "print_option_lines h template [] out = (out, None)"
| "print_option_lines h template (a # as) out =
     (case option_line (h a) template of
        Inl e \<Rightarrow> (out, Some e)
      | Inr None \<Rightarrow> print_option_lines h template as out
      | Inr (Some line) \<Rightarrow> print_option_lines h template as (out @ [line]))"

text \<open>
  \<^verbatim>\<open>print_help\<close> never returns: the result is what \<^verbatim>\<open>print\<close> wrote to standard output,
  one entry for each call, and the exception that ends it, \<^verbatim>\<open>SystemExit\<close> from
  \<^verbatim>\<open>sys.exit\<close> when nothing else was raised before. \<open>argv0\<close> is \<^verbatim>\<open>sys.argv[0]\<close>.
\<close>

definition print_help :: "parser \<Rightarrow> heap \<Rightarrow> string \<Rightarrow> string list \<times> exn" where
  "print_help self h argv0 =
     (case positional_usage h (options self) [] of
        Inl e \<Rightarrow> ([], e)
      | Inr positional \<Rightarrow>
         (case py_format (msg_usage self) [PStr (basename argv0), PStr positional] of
            Inl e \<Rightarrow> ([], e)
          | Inr usage \<Rightarrow>
             (case max_syntax h (options self) 0 of
                Inl e \<Rightarrow> ([usage], e)
              | Inr maxlen \<Rightarrow>
                 (case print_option_lines h (''  %-'' @ dec_nat (maxlen + 2) @ ''s%s'')
                         (options self) [usage] of
                    (out, Some e) \<Rightarrow> (out, e)
                  | (out, None) \<Rightarrow> (out, SystemExit (exc_usage self))))))"

section \<open>\<^verbatim>\<open>error\<close>\<close>

text \<open>
  Modelled from the spec: the engine's \<^verbatim>\<open>exit(status, message)\<close>, inherited by the
  class: it writes the message to standard error and terminates the process with the
  status. The result is the text written and the exception of \<^verbatim>\<open>sys.exit\<close>.
\<close>

definition engine_exit :: "int \<Rightarrow> string \<Rightarrow> string \<times> exn" where
  "engine_exit status message = (message, SystemExit status)"

text \<open>
  \<^verbatim>\<open>self.exit(self.exc_error, self.msg_error % self.opt_help["long"] + "\n")\<close>. The
  result is the text written to standard error and the exception raised. The argument
  \<open>message\<close> is not used. Subscripting \<^verbatim>\<open>None\<close> is a TypeError.
\<close>

definition error :: "parser \<Rightarrow> heap \<Rightarrow> string \<Rightarrow> string \<times> exn" where
  "error self h message =
     (case opt_help self of
        None \<Rightarrow> ([], TypeError)
      | Some a \<Rightarrow>
         (case and_then (dict_get (h a) ''long'') (\<lambda>l. py_format (msg_error self) [l]) of
            Inl e \<Rightarrow> ([], e)
          | Inr text \<Rightarrow> engine_exit (exc_error self) (text @ [CHR 0x0A])))"

section \<open>The underlying engine: parsing\<close>

text \<open>
  Modelled from the spec: the engine's "parse entry point returning a mapping from
  destination name to parsed value (or invoking \<^verbatim>\<open>error\<close> on failure)" is not part of
  the module. A parsed value is a scalar (a default, a flag's boolean, or one
  command-line token) or a sequence of tokens.
\<close>

datatype parsed = Scalar pyval | Sequence "string list"

type_synonym namespace = "pyval \<rightharpoonup> parsed"

text \<open>
  Modelled from the spec: how the engine matches the tokens of a command line against
  the registered actions is left open. The matching is a parameter: for the registered
  actions and a command line it gives the actions fired, in order, each with the
  tokens it consumed, and the engine's message when the command line is rejected.
\<close>

type_synonym matching = "(add_call \<times> string list) list"

type_synonym scanner = "add_call list \<Rightarrow> string list \<Rightarrow> matching \<times> string option"

text \<open>
  Modelled from the spec: values are "stored under \<^verbatim>\<open>name\<close>": the destination is the
  \<^verbatim>\<open>dest\<close> keyword when it is passed and the name the positional is registered with
  otherwise.
\<close>

definition dest_of :: "add_call \<Rightarrow> pyval" where
  "dest_of c =
     (case c_dest c of
        Some d \<Rightarrow> d
      | None \<Rightarrow> (case c_flags c of [] \<Rightarrow> PNone | n # ns \<Rightarrow> n))"

text \<open>Modelled from the spec: "default from \<^verbatim>\<open>default\<close> field or none".\<close>

definition default_of :: "add_call \<Rightarrow> pyval" where
  "default_of c = (case c_default c of Some d \<Rightarrow> d | None \<Rightarrow> PNone)"

text \<open>
  Modelled from the spec: the mapping a parse starts from holds, for every action that
  stores a value, its default under its destination; where two actions share a
  destination the one registered first gives the default.
\<close>

fun init_namespace :: "add_call list \<Rightarrow> namespace \<Rightarrow> namespace" where
  "init_namespace [] ns = ns"
| "init_namespace (c # cs) ns =
     init_namespace cs
       (if c_action c = Help \<or> ns (dest_of c) \<noteq> None then ns
        else ns(dest_of c \<mapsto> Scalar (default_of c)))"

text \<open>
  Modelled from the spec: the "arity" of a registration, by its \<^verbatim>\<open>nargs\<close>: an exact
  count, \<^verbatim>\<open>"?"\<close> (zero or one), \<^verbatim>\<open>"+"\<close> (one or more), \<^verbatim>\<open>"*"\<close> (zero or more), and
  exactly one token for \<^verbatim>\<open>nargs=None\<close>. A switch and the help flag take no token.
\<close>

definition arity_ok :: "add_call \<Rightarrow> string list \<Rightarrow> bool" where
  "arity_ok c toks =
     (if c_action c \<noteq> Store then toks = []
      else case c_nargs c of
        None \<Rightarrow> length toks = 1
      | Some PNone \<Rightarrow> length toks = 1
      | Some (PInt n) \<Rightarrow> int (length toks) = n
      | Some (PBool b) \<Rightarrow> False
      | Some (PStr s) \<Rightarrow>
          if s = ''?'' then length toks \<le> 1
          else if s = ''+'' then 1 \<le> length toks
          else s = ''*'')"

text \<open>
  Modelled from the spec: the value an action stores for the tokens it consumed. The
  comment at the head of the module records the engine's rule: with \<^verbatim>\<open>nargs=1\<close> "the
  result is a list with one item; to get only the item, one must pass
  \<^verbatim>\<open>nargs=None\<close>". A \<^verbatim>\<open>"?"\<close> that consumed nothing gives \<^verbatim>\<open>None\<close> for a flag and the
  default for a positional; every other arity gives the sequence of the tokens.
\<close>

definition get_values :: "add_call \<Rightarrow> string list \<Rightarrow> parsed" where
  "get_values c toks =
     (if toks = [] \<and> c_nargs c = Some (PStr ''?'') then
        Scalar (if length (c_flags c) = 1 then default_of c else PNone)
      else if length toks = 1 \<and> c_nargs c \<in> {None, Some PNone, Some (PStr ''?'')} then
        Scalar (PStr (hd toks))
      else Sequence toks)"

text \<open>
  Modelled from the spec: a positional is required unless its arity allows zero tokens
  ("missing required value" is a user syntax error).
\<close>

definition required :: "add_call \<Rightarrow> bool" where
  "required c =
     (length (c_flags c) = 1 \<and> c_action c = Store \<and>
      c_nargs c \<noteq> Some (PStr ''?'') \<and> c_nargs c \<noteq> Some (PStr ''*''))"

text \<open>
  Modelled from the spec: every required positional is among the actions fired.
\<close>

definition required_met :: "add_call list \<Rightarrow> matching \<Rightarrow> bool" where
  "required_met acts evs = list_all (\<lambda>c. c \<in> set (map fst evs)) (filter required acts)"

text \<open>
  Modelled from the spec: a parse returns the mapping, or the process ends: with what
  was printed to standard output, what was written to standard error, and the
  exception raised.
\<close>

datatype outcome = Parsed namespace | Terminated "string list" string exn

text \<open>
  Modelled from the spec: a parse failure ends the process with what \<^verbatim>\<open>error\<close> wrote
  and raised.
\<close>

definition failure :: "string \<times> exn \<Rightarrow> outcome" where
  "failure r = Terminated [] (fst r) (snd r)"

text \<open>
  Modelled from the spec: the state machine "construction, parse invoked by caller, then
  either normal return with populated values, or termination via \<^verbatim>\<open>print_help\<close> or
  \<^verbatim>\<open>error\<close>". The fired actions run in order. An action that is not registered or
  whose tokens break its arity is a parse failure; a switch stores true, a valued
  action stores its value, and the help flag calls \<^verbatim>\<open>print_help\<close>.
\<close>

fun run_events :: "parser \<Rightarrow> heap \<Rightarrow> string \<Rightarrow> matching \<Rightarrow> namespace \<Rightarrow> outcome" where
  "run_events self h argv0 [] ns = Parsed ns"
| "run_events self h argv0 (ev # evs) ns =
     (if fst ev \<notin> set (actions self) \<or> \<not> arity_ok (fst ev) (snd ev) then
        failure (error self h ''invalid arguments'')
      else if c_action (fst ev) = Help then
        Terminated (fst (print_help self h argv0)) [] (snd (print_help self h argv0))
      else if c_action (fst ev) = StoreTrue then
        run_events self h argv0 evs (ns(dest_of (fst ev) \<mapsto> Scalar (PBool True)))
      else
        run_events self h argv0 evs (ns(dest_of (fst ev) \<mapsto> get_values (fst ev) (snd ev))))"

text \<open>
  Modelled from the spec: \<^verbatim>\<open>parse_args\<close>, inherited from the engine. After the fired
  actions have run, a rejected command line or a required positional that consumed
  nothing is a parse failure, reported through \<^verbatim>\<open>error\<close>.
\<close>

definition parse_args :: "scanner \<Rightarrow> parser \<Rightarrow> heap \<Rightarrow> string \<Rightarrow> string list \<Rightarrow> outcome" where
  "parse_args scan self h argv0 args =
     (case run_events self h argv0 (fst (scan (actions self) args))
             (init_namespace (actions self) Map.empty) of
        Terminated out err e \<Rightarrow> Terminated out err e
      | Parsed ns \<Rightarrow>
          (case snd (scan (actions self) args) of
             Some message \<Rightarrow> failure (error self h message)
           | None \<Rightarrow>
               if required_met (actions self) (fst (scan (actions self) args)) then Parsed ns
               else failure (error self h ''the following arguments are required'')))"

text \<open>
  Modelled from the spec: one engine for the examples, stricter than any real one needs
  to be. A positional is registered under a non-empty name without a leading dash and
  with an arity of the data model; a flag pair is spelled with leading dashes and
  neither spelling is registered yet. A flag spelling is a string with a leading dash.
\<close>

definition is_flag :: "pyval \<Rightarrow> bool" where
  "is_flag v = (case v of PStr (c # cs) \<Rightarrow> c = CHR ''-'' | _ \<Rightarrow> False)"

text \<open>Modelled from the spec: a name is a non-empty string without a leading dash.\<close>

definition is_name :: "pyval \<Rightarrow> bool" where
  "is_name v = (case v of PStr (c # cs) \<Rightarrow> c \<noteq> CHR ''-'' | _ \<Rightarrow> False)"

text \<open>
  Modelled from the spec: the arities of the data model: an exact count of at least 1,
  \<^verbatim>\<open>"?"\<close>, \<^verbatim>\<open>"+"\<close>, \<^verbatim>\<open>"*"\<close>, and \<^verbatim>\<open>None\<close>.
\<close>

definition valid_nargs :: "pyval option \<Rightarrow> bool" where
  "valid_nargs n =
     (case n of
        None \<Rightarrow> True
      | Some PNone \<Rightarrow> True
      | Some (PInt k) \<Rightarrow> 1 \<le> k
      | Some (PBool b) \<Rightarrow> False
      | Some (PStr s) \<Rightarrow> s = ''?'' \<or> s = ''+'' \<or> s = ''*'')"

text \<open>
  Modelled from the spec: the checks of the engine of the examples: \<^verbatim>\<open>ValueError\<close> for a
  malformed call, \<^verbatim>\<open>ArgumentError\<close> for a flag spelling that is registered already.
\<close>

definition strict_engine :: engine where
  "strict_engine acts c =
     (case c_flags c of
        [n] \<Rightarrow> if is_name n \<and> valid_nargs (c_nargs c) then None else Some ValueError
      | [s, l] \<Rightarrow>
          if \<not> (is_flag s \<and> is_flag l) then Some ValueError
          else if s \<in> set (concat (map c_flags acts)) \<or> l \<in> set (concat (map c_flags acts))
            then Some ArgumentError
          else None
      | _ \<Rightarrow> Some ValueError)"

text \<open>
  Modelled from the spec: one matching for the examples. Tokens are read left to right;
  a token that is the spelling of a registered flag fires it, with the next token as
  its value when it stores one; the other tokens go to the positionals in order, one
  each except that the positional of arity \<^verbatim>\<open>"+"\<close> takes all but those owed to the
  positionals after it. It is used on command lines where that is what the engine
  does. \<open>flag_action\<close> finds the registered flag a token spells.
\<close>

fun flag_action :: "add_call list \<Rightarrow> string \<Rightarrow> add_call option" where
  "flag_action [] t = None"
| "flag_action (c # cs) t =
     (if length (c_flags c) = 2 \<and> PStr t \<in> set (c_flags c) then Some c else flag_action cs t)"

text \<open>
  Modelled from the spec: the flags fired by a command line, in order, and the tokens
  left for the positionals.
\<close>

fun scan_flags :: "add_call list \<Rightarrow> string list \<Rightarrow> matching \<times> string list" where
  "scan_flags acts [] = ([], [])"
| "scan_flags acts [t] =
     (case flag_action acts t of
        Some c \<Rightarrow> ([(c, [])], [])
      | None \<Rightarrow> ([], [t]))"
| "scan_flags acts (t # u # ts) =
     (case flag_action acts t of
        Some c \<Rightarrow>
          if c_action c = Store \<and> flag_action acts u = None
          then ((c, [u]) # fst (scan_flags acts ts), snd (scan_flags acts ts))
          else ((c, []) # fst (scan_flags acts (u # ts)), snd (scan_flags acts (u # ts)))
      | None \<Rightarrow> (fst (scan_flags acts (u # ts)), t # snd (scan_flags acts (u # ts))))"

text \<open>
  Modelled from the spec: the tokens left, dealt to the positionals in order; what
  cannot be dealt is returned.
\<close>

fun deal :: "add_call list \<Rightarrow> string list \<Rightarrow> matching \<times> string list" where
  "deal [] ts = ([], ts)"
| "deal (c # cs) ts =
     (let k = (if c_nargs c = Some (PStr ''+'') then length ts - length cs else 1)
      in if length ts < k \<or> k = 0 then ([], ts)
         else ((c, take k ts) # fst (deal cs (drop k ts)), snd (deal cs (drop k ts))))"

text \<open>
  Modelled from the spec: the matching of the examples: the flags, then the
  positionals; tokens that no positional takes reject the command line.
\<close>

definition simple_scanner :: scanner where
  "simple_scanner acts args =
     (let fl = scan_flags acts args;
          ps = deal (filter (\<lambda>c. length (c_flags c) = 1) acts) (snd fl)
      in (fst fl @ fst ps,
          if snd ps = [] then None else Some ''unrecognized arguments''))"

section \<open>What the specification says of construction\<close>

text \<open>
  The specification's own account of construction, to compare the constructor with:
  the \<^verbatim>\<open>syntax\<close> text of a descriptor ("normal: short, long=arg; switch: short, long;
  positional: name; help: short, long") and its registration ("normal: optional single
  value, default from \<^verbatim>\<open>default\<close> field or none, stored under \<^verbatim>\<open>name\<close>; switch: boolean
  flag, default false; positional: the descriptor's \<^verbatim>\<open>nargs\<close>, an exact count of 1 as
  no list wrapping; help: a help-triggering flag"). \<open>field\<close> reads a key, with
  \<^verbatim>\<open>None\<close> for a key that is absent.
\<close>

definition field :: "dict \<Rightarrow> string \<Rightarrow> pyval" where
  "field d k = (case dict_get d k of Inl e \<Rightarrow> PNone | Inr v \<Rightarrow> v)"

definition spec_syntax :: "dict \<Rightarrow> string" where
  "spec_syntax d =
     (if field d ''type'' = PStr ''normal'' then
        py_str (field d ''short'') @ '', '' @ py_str (field d ''long'') @ ''=''
          @ py_str (field d ''arg'')
      else if field d ''type'' = PStr ''positional'' then py_str (field d ''name'')
      else py_str (field d ''short'') @ '', '' @ py_str (field d ''long''))"

definition spec_call :: "dict \<Rightarrow> add_call" where
  "spec_call d =
     (if field d ''type'' = PStr ''normal'' then
        \<lparr>c_flags = [field d ''short'', field d ''long''], c_nargs = Some (PStr ''?''),
         c_action = Store, c_dest = Some (field d ''name''),
         c_default = Some (field d ''default'')\<rparr>
      else if field d ''type'' = PStr ''switch'' then
        \<lparr>c_flags = [field d ''short'', field d ''long''], c_nargs = None,
         c_action = StoreTrue, c_dest = Some (field d ''name''),
         c_default = Some (PBool False)\<rparr>
      else if field d ''type'' = PStr ''positional'' then
        \<lparr>c_flags = [field d ''name''],
         c_nargs = Some (if is_int_one (field d ''nargs'') then PNone else field d ''nargs''),
         c_action = Store, c_dest = None, c_default = None\<rparr>
      else
        \<lparr>c_flags = [field d ''short'', field d ''long''], c_nargs = None,
         c_action = Help, c_dest = None, c_default = None\<rparr>)"

definition known_type :: "dict \<Rightarrow> bool" where
  "known_type d =
     (dict_get d ''type'' = Inr (PStr ''normal'') \<or> dict_get d ''type'' = Inr (PStr ''switch'')
      \<or> dict_get d ''type'' = Inr (PStr ''positional'')
      \<or> dict_get d ''type'' = Inr (PStr ''help''))"

definition is_help :: "dict \<Rightarrow> bool" where
  "is_help d = (dict_get d ''type'' = Inr (PStr ''help''))"

definition count_help :: "heap \<Rightarrow> addr list \<Rightarrow> nat" where
  "count_help h opts = length (filter (\<lambda>a. is_help (h a)) opts)"

text \<open>
  A descriptor after its registration: its type is one of the four, its \<^verbatim>\<open>syntax\<close> is
  the text the specification gives, and the keys its registration read are there.
\<close>

definition registered :: "heap \<Rightarrow> addr \<Rightarrow> bool" where
  "registered h a =
     (known_type (h a) \<and> dict_get (h a) ''syntax'' = Inr (PStr (spec_syntax (h a))) \<and>
      (is_help (h a) \<longrightarrow> dict_has (h a) ''long''))"

text \<open>
  The only writes of the module are of the key \<^verbatim>\<open>syntax\<close>: between two stores of one
  run, every other key of every object keeps its value, and a registered descriptor
  stays registered.
\<close>

definition frame :: "heap \<Rightarrow> heap \<Rightarrow> bool" where
  "frame h h' =
     (\<forall>b. (\<forall>k. k \<noteq> ''syntax'' \<longrightarrow> dict_get (h' b) k = dict_get (h b) k) \<and>
          (\<forall>k. dict_has (h b) k \<longrightarrow> dict_has (h' b) k) \<and>
          (registered h b \<longrightarrow> registered h' b))"

text \<open>
  The module-level default help descriptor still has the five entries it is created
  with (the constructor may have added \<^verbatim>\<open>syntax\<close> to it).
\<close>

definition default_help_intact :: "heap \<Rightarrow> bool" where
  "default_help_intact h =
     (dict_get (h OPT_DEFAULT_HELP) ''type'' = Inr (PStr ''help'') \<and>
      dict_get (h OPT_DEFAULT_HELP) ''name'' = Inr (PStr ''help'') \<and>
      dict_get (h OPT_DEFAULT_HELP) ''short'' = Inr (PStr ''-h'') \<and>
      dict_get (h OPT_DEFAULT_HELP) ''long'' = Inr (PStr ''--help'') \<and>
      dict_get (h OPT_DEFAULT_HELP) ''help'' = Inr (PStr ''Display this message''))"

section \<open>What the specification says of a parse\<close>

text \<open>
  Reading the result of a parse: whether it returned a mapping, and the value the
  mapping holds under a destination (nothing when the parse ended the process).
  \<open>stores_under\<close> says that a registration writes to a destination.
\<close>

definition is_parsed :: "outcome \<Rightarrow> bool" where
  "is_parsed r = (case r of Parsed ns \<Rightarrow> True | Terminated out err e \<Rightarrow> False)"

definition parsed_value :: "outcome \<Rightarrow> pyval \<Rightarrow> parsed option" where
  "parsed_value r n = (case r of Parsed ns \<Rightarrow> ns n | Terminated out err e \<Rightarrow> None)"

definition stores_under :: "add_call \<Rightarrow> pyval \<Rightarrow> bool" where
  "stores_under c n = (c_action c \<noteq> Help \<and> dest_of c = n)"

section \<open>What the specification says of the help listing\<close>

text \<open>
  The descriptors listed under "Options:" are those that are not positional. A listed
  line is the descriptor's \<^verbatim>\<open>syntax\<close> after two spaces, filled with spaces to a given
  width, and then its \<^verbatim>\<open>help\<close> text. \<open>maxlen_of\<close> is the greatest length of a \<^verbatim>\<open>syntax\<close>
  text over every descriptor of the list, 0 for the empty list.
\<close>

definition listed :: "heap \<Rightarrow> addr list \<Rightarrow> addr list" where
  "listed h opts = filter (\<lambda>a. field (h a) ''type'' \<noteq> PStr ''positional'') opts"

definition syntax_len :: "heap \<Rightarrow> addr \<Rightarrow> nat" where
  "syntax_len h a = length (py_str (field (h a) ''syntax''))"

definition maxlen_of :: "heap \<Rightarrow> addr list \<Rightarrow> nat" where
  "maxlen_of h opts = Max (set (0 # map (syntax_len h) opts))"

definition help_line :: "heap \<Rightarrow> nat \<Rightarrow> addr \<Rightarrow> string" where
  "help_line h w a =
     ''  '' @ ljust w (py_str (field (h a) ''syntax'')) @ py_str (field (h a) ''help'')"

section \<open>Example data\<close>

text \<open>
  A store for the examples. Address 0 holds the module's default help descriptor;
  addresses 1 to 5 hold the five descriptors of the module's own \<^verbatim>\<open>example()\<close>, and
  \<open>cmdoptions\<close> is its list. The other addresses hold further descriptors: one of an
  unrecognised type, a second help descriptor, a valued option whose \<^verbatim>\<open>syntax\<close> is 20
  characters long, a positional with a name of 30 characters, a valued option with a
  default that stores under \<^verbatim>\<open>outfile\<close>, and a positional of count 1 named \<^verbatim>\<open>infile\<close>.
\<close>

definition sample_store :: heap where
  "sample_store =
     (\<lambda>a. [])
     (0 := OPT_DEFAULT_HELP_dict,
      1 := [(''type'', PStr ''switch''), (''name'', PStr ''pretend''), (''short'', PStr ''-p''),
            (''long'', PStr ''--pretend''), (''help'', PStr ''No changes (dry run)'')],
      2 := [(''type'', PStr ''normal''), (''name'', PStr ''logfile''), (''short'', PStr ''-l''),
            (''long'', PStr ''--logfile''), (''arg'', PStr ''file''),
            (''help'', PStr ''Log file to write to'')],
      3 := [(''type'', PStr ''help''), (''name'', PStr ''help''), (''short'', PStr ''-h''),
            (''long'', PStr ''--help''), (''help'', PStr ''Display this message'')],
      4 := [(''type'', PStr ''positional''), (''name'', PStr ''infile''), (''nargs'', PStr ''+''),
            (''help'', PStr ''Input files'')],
      5 := [(''type'', PStr ''positional''), (''name'', PStr ''outfile''), (''nargs'', PInt 1),
            (''help'', PStr ''Output file'')],
      6 := [(''type'', PStr ''flag''), (''name'', PStr ''force''), (''short'', PStr ''-f''),
            (''long'', PStr ''--force''), (''help'', PStr ''Overwrite'')],
      7 := [(''type'', PStr ''help''), (''name'', PStr ''usage''), (''short'', PStr ''-u''),
            (''long'', PStr ''--usage''), (''help'', PStr ''Show usage'')],
      8 := [(''type'', PStr ''normal''), (''name'', PStr ''logfile''), (''short'', PStr ''-l''),
            (''long'', PStr ''--logfile''), (''arg'', PStr ''target''),
            (''help'', PStr ''Log file to write to'')],
      9 := [(''type'', PStr ''positional''), (''name'', PStr ''an_input_file_with_a_long_name''),
            (''nargs'', PInt 1), (''help'', PStr ''Input file'')],
      10 := [(''type'', PStr ''normal''), (''name'', PStr ''outfile''), (''short'', PStr ''-o''),
             (''long'', PStr ''--out''), (''arg'', PStr ''file''), (''default'', PStr ''a.out''),
             (''help'', PStr ''Output file'')],
      11 := [(''type'', PStr ''positional''), (''name'', PStr ''infile''), (''nargs'', PInt 1),
             (''help'', PStr ''First input file'')])"

definition cmdoptions :: "addr list" where
  "cmdoptions = [1, 2, 3, 4, 5]"

definition example_msg_error :: string where
  "example_msg_error =
     ''Invalid or insufficient command line. Use %s for detailed usage information.''"

definition example_msg_usage :: string where
  "example_msg_usage =
     ''Usage: %s [OPTION]... %s'' @ [CHR 0x0A, CHR 0x0A]
       @ ''Example for Python module Argument Parser. The options'' @ [CHR 0x0A]
       @ ''specified below are for demonstration purposes only.'' @ [CHR 0x0A, CHR 0x0A]
       @ ''Options:''"

text \<open>The constructor of the examples: the strict engine, the module's default arguments.\<close>

definition construct :: "addr list \<Rightarrow> exn option \<times> heap \<times> parser" where
  "construct opts =
     ArgumentParser_init strict_engine opts MSG_SYNTAX_ERROR EXITCODE_ERROR MSG_USAGE_HELP
       EXITCODE_USAGE sample_store"

text \<open>
  A second parser, built with the same engine in the store the construction for the
  list of addresses 1 and 2 leaves behind.
\<close>

definition second_run :: "exn option \<times> heap \<times> parser" where
  "second_run =
     ArgumentParser_init strict_engine [4, 5] MSG_SYNTAX_ERROR EXITCODE_ERROR MSG_USAGE_HELP
       EXITCODE_USAGE (fst (snd (construct [1, 2])))"

text \<open>
  The parser of the module's \<^verbatim>\<open>example()\<close>, with its error message, usage message and
  exit codes.
\<close>

definition example_run :: "exn option \<times> heap \<times> parser" where
  "example_run =
     ArgumentParser_init strict_engine cmdoptions example_msg_error 2 example_msg_usage 0
       sample_store"

text \<open>
  What \<^verbatim>\<open>print_help\<close> prints and raises for the parser constructed from a list of
  addresses, the program being run as \<^verbatim>\<open>/usr/bin/prog\<close>.
\<close>

definition listing_output :: "addr list \<Rightarrow> string list \<times> exn" where
  "listing_output opts =
     print_help (snd (snd (construct opts))) (fst (snd (construct opts))) ''/usr/bin/prog''"

text \<open>
  A parse by the parser constructed from a list of addresses, with the matching of the
  examples, the program being run as \<^verbatim>\<open>/usr/bin/prog\<close>.
\<close>

definition example_parse :: "addr list \<Rightarrow> string list \<Rightarrow> outcome" where
  "example_parse opts args =
     parse_args simple_scanner (snd (snd (construct opts))) (fst (snd (construct opts)))
       ''/usr/bin/prog'' args"

section \<open>Formatting and dictionaries\<close>

lemma emit_Inr [simp]: "emit s (Inr t) = Inr (s @ t)"
  by (simp add: emit_def)

lemma emit_Inl [simp]: "emit s (Inl e) = Inl e"
  by (simp add: emit_def)

lemma and_then_Inr [simp]: "and_then (Inr v) k = k v"
  by (simp add: and_then_def)

lemma and_then_Inl [simp]: "and_then (Inl e) k = Inl e"
  by (simp add: and_then_def)

lemma and_then_eq_Inr:
  "and_then r k = Inr y \<longleftrightarrow> (\<exists>v. r = Inr v \<and> k v = Inr y)"
  by (cases r) simp_all

lemma py_format_normal [simp]:
  "py_format ''%s, %s=%s'' [s, l, g] = Inr (py_str s @ '', '' @ py_str l @ ''='' @ py_str g)"
  by (simp add: py_format_def is_digit_def)

lemma py_format_pair [simp]:
  "py_format ''%s, %s'' [s, l] = Inr (py_str s @ '', '' @ py_str l)"
  by (simp add: py_format_def is_digit_def)

lemma py_format_single [simp]: "py_format ''%s'' [n] = Inr (py_str n)"
  by (simp add: py_format_def is_digit_def)

lemma dict_get_set:
  "dict_get (dict_set d k v) k' = (if k' = k then Inr v else dict_get d k')"
  by (simp add: dict_get_def dict_set_def update_conv')

lemma dict_has_set: "dict_has (dict_set d k v) k' = (k' = k \<or> dict_has d k')"
  by (simp add: dict_has_def dict_set_def update_conv')

lemma store_set_get:
  "dict_get (store_set h a k v b) k' =
     (if b = a \<and> k' = k then Inr v else dict_get (h b) k')"
  by (simp add: store_set_def dict_get_set)

lemma store_set_has:
  "dict_has (store_set h a k v b) k' = ((b = a \<and> k' = k) \<or> dict_has (h b) k')"
  by (simp add: store_set_def dict_has_set)

lemma store_set_other: "b \<noteq> a \<Longrightarrow> store_set h a k v b = h b"
  by (simp add: store_set_def)

lemma dict_has_get: "dict_has d k = (\<exists>v. dict_get d k = Inr v)"
  by (auto simp: dict_has_def dict_get_def split: option.splits)

lemma field_get: "dict_get d k = Inr v \<Longrightarrow> field d k = v"
  by (simp add: field_def)

lemma field_absent: "\<not> dict_has d k \<Longrightarrow> field d k = PNone"
  by (auto simp: field_def dict_has_get split: sum.splits)

section \<open>One round of the registration loop\<close>

lemma add_normal_ok:
  assumes "add_normal eng a h acts = (None, h', acts')"
  shows "dict_has (h a) ''long'' \<and>
         h' = store_set h a ''syntax''
                (PStr (py_str (field (h a) ''short'') @ '', '' @ py_str (field (h a) ''long'')
                   @ ''='' @ py_str (field (h a) ''arg''))) \<and>
         acts' = acts @
           [\<lparr>c_flags = [field (h a) ''short'', field (h a) ''long''],
             c_nargs = Some (PStr ''?''), c_action = Store,
             c_dest = Some (field (h a) ''name''),
             c_default = Some (field (h a) ''default'')\<rparr>]"
  using assms
  by (auto simp: add_normal_def on_value_def Let_def add_argument_def dict_has_get
      store_set_get field_def split: sum.splits option.splits if_splits)

lemma add_switch_ok:
  assumes "add_switch eng a h acts = (None, h', acts')"
  shows "dict_has (h a) ''long'' \<and>
         h' = store_set h a ''syntax''
                (PStr (py_str (field (h a) ''short'') @ '', '' @ py_str (field (h a) ''long''))) \<and>
         acts' = acts @
           [\<lparr>c_flags = [field (h a) ''short'', field (h a) ''long''],
             c_nargs = None, c_action = StoreTrue,
             c_dest = Some (field (h a) ''name''),
             c_default = Some (PBool False)\<rparr>]"
  using assms
  by (auto simp: add_switch_def on_value_def Let_def add_argument_def dict_has_get
      store_set_get field_def split: sum.splits option.splits if_splits)

lemma add_positional_ok:
  assumes "add_positional eng a h acts = (None, h', acts')"
  shows "h' = store_set h a ''syntax'' (PStr (py_str (field (h a) ''name''))) \<and>
         acts' = acts @
           [\<lparr>c_flags = [field (h a) ''name''],
             c_nargs = Some (if is_int_one (field (h a) ''nargs'') then PNone
                             else field (h a) ''nargs''),
             c_action = Store, c_dest = None, c_default = None\<rparr>]"
  using assms
  by (auto simp: add_positional_def on_value_def Let_def add_argument_def dict_has_get
      store_set_get field_def split: sum.splits option.splits if_splits)

lemma add_help_ok:
  assumes "add_help eng a h acts = (None, h', acts')"
  shows "dict_has (h a) ''long'' \<and>
         h' = store_set h a ''syntax''
                (PStr (py_str (field (h a) ''short'') @ '', '' @ py_str (field (h a) ''long''))) \<and>
         acts' = acts @
           [\<lparr>c_flags = [field (h a) ''short'', field (h a) ''long''],
             c_nargs = None, c_action = Help, c_dest = None, c_default = None\<rparr>]"
  using assms
  by (auto simp: add_help_def on_value_def Let_def add_argument_def dict_has_get
      store_set_get field_def split: sum.splits option.splits if_splits)

lemma add_normal_raise:
  assumes "add_normal eng a h acts = (Some e, h', acts')"
  shows "acts' = acts \<and> (h' = h \<or> h' = store_set h a ''syntax'' (PStr (spec_syntax (h a)))
            \<or> \<not> field (h a) ''type'' = PStr ''normal'')"
  using assms
  by (auto simp: add_normal_def on_value_def Let_def add_argument_def spec_syntax_def field_def
      split: sum.splits option.splits if_splits)

lemma add_switch_raise:
  assumes "add_switch eng a h acts = (Some e, h', acts')"
  shows "acts' = acts \<and> (h' = h \<or> h' = store_set h a ''syntax'' (PStr (spec_syntax (h a)))
            \<or> \<not> field (h a) ''type'' = PStr ''switch'')"
  using assms
  by (auto simp: add_switch_def on_value_def Let_def add_argument_def spec_syntax_def field_def
      split: sum.splits option.splits if_splits)

lemma add_positional_raise:
  assumes "add_positional eng a h acts = (Some e, h', acts')"
  shows "acts' = acts \<and> (h' = h \<or> h' = store_set h a ''syntax'' (PStr (spec_syntax (h a)))
            \<or> \<not> field (h a) ''type'' = PStr ''positional'')"
  using assms
  by (auto simp: add_positional_def on_value_def Let_def add_argument_def spec_syntax_def
      field_def split: sum.splits option.splits if_splits)

lemma add_help_raise:
  assumes "add_help eng a h acts = (Some e, h', acts')"
  shows "acts' = acts \<and> (h' = h \<or> h' = store_set h a ''syntax'' (PStr (spec_syntax (h a)))
            \<or> \<not> field (h a) ''type'' = PStr ''help'')"
  using assms
  by (auto simp: add_help_def on_value_def Let_def add_argument_def spec_syntax_def field_def
      split: sum.splits option.splits if_splits)

lemma add_option_ok:
  assumes "add_option eng a h acts = (None, h', acts')"
  shows "known_type (h a) \<and> (is_help (h a) \<longrightarrow> dict_has (h a) ''long'') \<and>
         h' = store_set h a ''syntax'' (PStr (spec_syntax (h a))) \<and>
         acts' = acts @ [spec_call (h a)]"
proof (cases "dict_get (h a) ''type''")
  case (Inl e)
  with assms show ?thesis by (simp add: add_option_def)
next
  case (Inr t)
  then have ft: "field (h a) ''type'' = t" by (rule field_get)
  consider "t = PStr ''normal''" | "t = PStr ''switch''" | "t = PStr ''positional''"
    | "t = PStr ''help''"
    | "t \<noteq> PStr ''normal''" "t \<noteq> PStr ''switch''" "t \<noteq> PStr ''positional''" "t \<noteq> PStr ''help''"
    by blast
  then show ?thesis
  proof cases
    case 1
    with assms Inr have "add_normal eng a h acts = (None, h', acts')" by (simp add: add_option_def)
    from add_normal_ok [OF this] 1 Inr ft show ?thesis
      by (simp add: known_type_def is_help_def spec_syntax_def spec_call_def)
  next
    case 2
    with assms Inr have "add_switch eng a h acts = (None, h', acts')" by (simp add: add_option_def)
    from add_switch_ok [OF this] 2 Inr ft show ?thesis
      by (simp add: known_type_def is_help_def spec_syntax_def spec_call_def)
  next
    case 3
    with assms Inr have "add_positional eng a h acts = (None, h', acts')"
      by (simp add: add_option_def)
    from add_positional_ok [OF this] 3 Inr ft show ?thesis
      by (simp add: known_type_def is_help_def spec_syntax_def spec_call_def)
  next
    case 4
    with assms Inr have "add_help eng a h acts = (None, h', acts')" by (simp add: add_option_def)
    from add_help_ok [OF this] 4 Inr ft show ?thesis
      by (simp add: known_type_def is_help_def spec_syntax_def spec_call_def)
  next
    case 5
    with assms Inr show ?thesis by (simp add: add_option_def)
  qed
qed

lemma add_option_raise:
  assumes "add_option eng a h acts = (Some e, h', acts')"
  shows "acts' = acts \<and> (h' = h \<or> h' = store_set h a ''syntax'' (PStr (spec_syntax (h a))))"
proof (cases "dict_get (h a) ''type''")
  case (Inl e')
  with assms show ?thesis by (auto simp: add_option_def)
next
  case (Inr t)
  then have ft: "field (h a) ''type'' = t" by (rule field_get)
  consider "t = PStr ''normal''" | "t = PStr ''switch''" | "t = PStr ''positional''"
    | "t = PStr ''help''"
    | "t \<noteq> PStr ''normal''" "t \<noteq> PStr ''switch''" "t \<noteq> PStr ''positional''" "t \<noteq> PStr ''help''"
    by blast
  then show ?thesis
  proof cases
    case 1
    with assms Inr have "add_normal eng a h acts = (Some e, h', acts')"
      by (simp add: add_option_def)
    from add_normal_raise [OF this] 1 ft show ?thesis by simp
  next
    case 2
    with assms Inr have "add_switch eng a h acts = (Some e, h', acts')"
      by (simp add: add_option_def)
    from add_switch_raise [OF this] 2 ft show ?thesis by simp
  next
    case 3
    with assms Inr have "add_positional eng a h acts = (Some e, h', acts')"
      by (simp add: add_option_def)
    from add_positional_raise [OF this] 3 ft show ?thesis by simp
  next
    case 4
    with assms Inr have "add_help eng a h acts = (Some e, h', acts')"
      by (simp add: add_option_def)
    from add_help_raise [OF this] 4 ft show ?thesis by simp
  next
    case 5
    with assms Inr show ?thesis by (auto simp: add_option_def)
  qed
qed

lemma add_option_unknown:
  assumes "\<not> known_type (h a)"
  shows "\<exists>e. add_option eng a h acts = (Some e, h, acts)"
  using assms by (auto simp: known_type_def add_option_def split: sum.splits)

section \<open>The store between two points of a run\<close>

lemma frame_get: "frame h h' \<Longrightarrow> k \<noteq> ''syntax'' \<Longrightarrow> dict_get (h' b) k = dict_get (h b) k"
  by (simp add: frame_def)

lemma frame_has: "frame h h' \<Longrightarrow> dict_has (h b) k \<Longrightarrow> dict_has (h' b) k"
  by (simp add: frame_def)

lemma frame_registered: "frame h h' \<Longrightarrow> registered h b \<Longrightarrow> registered h' b"
  by (simp add: frame_def)

lemma frame_field: "frame h h' \<Longrightarrow> k \<noteq> ''syntax'' \<Longrightarrow> field (h' b) k = field (h b) k"
  by (simp add: field_def frame_get)

lemma frame_spec_call: "frame h h' \<Longrightarrow> spec_call (h' b) = spec_call (h b)"
  by (simp add: spec_call_def frame_field)

lemma frame_spec_syntax: "frame h h' \<Longrightarrow> spec_syntax (h' b) = spec_syntax (h b)"
  by (simp add: spec_syntax_def frame_field)

lemma frame_known_type: "frame h h' \<Longrightarrow> known_type (h' b) = known_type (h b)"
  by (simp add: known_type_def frame_get)

lemma frame_is_help: "frame h h' \<Longrightarrow> is_help (h' b) = is_help (h b)"
  by (simp add: is_help_def frame_get)

lemma frame_count_help: "frame h h' \<Longrightarrow> count_help h' opts = count_help h opts"
  by (simp add: count_help_def frame_is_help)

lemma frame_intact: "frame h h' \<Longrightarrow> default_help_intact h' = default_help_intact h"
  by (simp add: default_help_intact_def frame_get)

lemma frame_refl: "frame h h"
  by (simp add: frame_def)

lemma frame_trans:
  assumes "frame h1 h2" and "frame h2 h3"
  shows "frame h1 h3"
  unfolding frame_def
proof (intro allI conjI impI)
  fix b :: addr and k :: string
  assume "k \<noteq> ''syntax''"
  then show "dict_get (h3 b) k = dict_get (h1 b) k"
    using assms by (simp add: frame_get)
next
  fix b :: addr and k :: string
  assume "dict_has (h1 b) k"
  then show "dict_has (h3 b) k"
    using assms by (blast intro: frame_has)
next
  fix b :: addr
  assume "registered h1 b"
  then show "registered h3 b"
    using assms by (blast intro: frame_registered)
qed

text \<open>Writing a descriptor's own \<^verbatim>\<open>syntax\<close> text into it.\<close>

lemma field_store_set:
  "k \<noteq> ''syntax'' \<Longrightarrow> field (store_set h a ''syntax'' v b) k = field (h b) k"
  by (simp add: field_def store_set_get)

lemma spec_syntax_store_set: "spec_syntax (store_set h a ''syntax'' v b) = spec_syntax (h b)"
  by (simp add: spec_syntax_def field_store_set)

lemma known_type_store_set: "known_type (store_set h a ''syntax'' v b) = known_type (h b)"
  by (simp add: known_type_def store_set_get)

lemma is_help_store_set: "is_help (store_set h a ''syntax'' v b) = is_help (h b)"
  by (simp add: is_help_def store_set_get)

lemma frame_store_set: "frame h (store_set h a ''syntax'' (PStr (spec_syntax (h a))))"
  unfolding frame_def registered_def
  by (simp add: spec_syntax_store_set known_type_store_set is_help_store_set
      store_set_get store_set_has)

lemma add_option_frame:
  assumes "add_option eng a h acts = (r, h', acts')"
  shows "frame h h'"
proof (cases r)
  case None
  with assms add_option_ok [of eng a h acts h' acts'] show ?thesis
    by (simp add: frame_store_set)
next
  case (Some e)
  with assms add_option_raise [of eng a h acts e h' acts'] show ?thesis
    by (auto simp: frame_store_set frame_refl)
qed

lemma add_option_other:
  assumes "add_option eng a h acts = (r, h', acts')" and "b \<noteq> a"
  shows "h' b = h b"
proof (cases r)
  case None
  with assms add_option_ok [of eng a h acts h' acts'] show ?thesis
    by (simp add: store_set_other)
next
  case (Some e)
  with assms add_option_raise [of eng a h acts e h' acts'] show ?thesis
    by (auto simp: store_set_other)
qed

lemma add_option_registered:
  assumes "add_option eng a h acts = (None, h', acts')"
  shows "registered h' a"
proof -
  from add_option_ok [OF assms] have
    kt: "known_type (h a)" and
    hl: "is_help (h a) \<longrightarrow> dict_has (h a) ''long''" and
    h': "h' = store_set h a ''syntax'' (PStr (spec_syntax (h a)))"
    by simp_all
  have fr: "frame h h'" by (rule add_option_frame [OF assms])
  have "dict_get (h' a) ''syntax'' = Inr (PStr (spec_syntax (h a)))"
    by (simp add: h' store_set_get)
  with kt hl fr show ?thesis
    by (simp add: registered_def frame_known_type frame_is_help frame_spec_syntax frame_has)
qed

section \<open>The registration loop\<close>

lemma add_options_frame:
  "add_options eng as h acts = (r, h', acts') \<Longrightarrow> frame h h'"
proof (induction as arbitrary: h acts)
  case Nil
  then show ?case by (simp add: frame_refl)
next
  case (Cons a as)
  obtain r1 h1 acts1 where step: "add_option eng a h acts = (r1, h1, acts1)"
    by (cases "add_option eng a h acts") auto
  have f1: "frame h h1" by (rule add_option_frame [OF step])
  show ?case
  proof (cases r1)
    case None
    with Cons.prems step have "add_options eng as h1 acts1 = (r, h', acts')" by simp
    from Cons.IH [OF this] f1 show ?thesis by (rule frame_trans [rotated])
  next
    case (Some e)
    with Cons.prems step have "h' = h1" by simp
    with f1 show ?thesis by simp
  qed
qed

lemma add_options_other:
  "add_options eng as h acts = (r, h', acts') \<Longrightarrow> b \<notin> set as \<Longrightarrow> h' b = h b"
proof (induction as arbitrary: h acts)
  case Nil
  then show ?case by simp
next
  case (Cons a as)
  obtain r1 h1 acts1 where step: "add_option eng a h acts = (r1, h1, acts1)"
    by (cases "add_option eng a h acts") auto
  from Cons.prems have ba: "b \<noteq> a" and bas: "b \<notin> set as" by auto
  have o1: "h1 b = h b" by (rule add_option_other [OF step ba])
  show ?case
  proof (cases r1)
    case None
    with Cons.prems step have "add_options eng as h1 acts1 = (r, h', acts')" by simp
    from Cons.IH [OF this bas] o1 show ?thesis by simp
  next
    case (Some e)
    with Cons.prems step have "h' = h1" by simp
    with o1 show ?thesis by simp
  qed
qed

text \<open>
  A loop that runs to its end has handed the engine the registration the specification
  gives for each descriptor, in order, and has left every descriptor registered.
\<close>

lemma add_options_ok:
  "add_options eng as h acts = (None, h', acts') \<Longrightarrow>
     acts' = acts @ map (\<lambda>a. spec_call (h a)) as \<and> (\<forall>a \<in> set as. registered h' a)"
proof (induction as arbitrary: h acts)
  case Nil
  then show ?case by simp
next
  case (Cons a as)
  obtain r1 h1 acts1 where step: "add_option eng a h acts = (r1, h1, acts1)"
    by (cases "add_option eng a h acts") auto
  show ?case
  proof (cases r1)
    case None
    with Cons.prems step have rest: "add_options eng as h1 acts1 = (None, h', acts')" by simp
    from step None have step': "add_option eng a h acts = (None, h1, acts1)" by simp
    from add_option_ok [OF step'] have a1: "acts1 = acts @ [spec_call (h a)]" by simp
    have f1: "frame h h1" by (rule add_option_frame [OF step])
    have "registered h1 a" by (rule add_option_registered [OF step'])
    with add_options_frame [OF rest] have ra: "registered h' a" by (rule frame_registered)
    have "map (\<lambda>b. spec_call (h1 b)) as = map (\<lambda>b. spec_call (h b)) as"
      by (simp add: frame_spec_call [OF f1])
    with Cons.IH [OF rest] a1 ra show ?thesis by simp
  next
    case (Some e)
    with Cons.prems step show ?thesis by simp
  qed
qed

lemma add_options_append:
  "add_options eng (xs @ ys) h acts =
     (case add_options eng xs h acts of
        (Some e, h', acts') \<Rightarrow> (Some e, h', acts')
      | (None, h', acts') \<Rightarrow> add_options eng ys h' acts')"
  by (induction xs arbitrary: h acts) (auto split: prod.splits option.splits)

text \<open>A descriptor of unrecognised type stops the loop before it is registered.\<close>

lemma add_options_unknown:
  "add_options eng as h acts = (r, h', acts') \<Longrightarrow> i < length as \<Longrightarrow>
     \<not> known_type (h (as ! i)) \<Longrightarrow>
     (\<exists>e. r = Some e) \<and> (\<exists>k \<le> i. acts' = acts @ map (\<lambda>a. spec_call (h a)) (take k as))"
proof (induction as arbitrary: h acts i)
  case Nil
  then show ?case by simp
next
  case (Cons a as)
  obtain r1 h1 acts1 where step: "add_option eng a h acts = (r1, h1, acts1)"
    by (cases "add_option eng a h acts") auto
  show ?case
  proof (cases i)
    case 0
    with Cons.prems have "\<not> known_type (h a)" by simp
    then obtain e where "add_option eng a h acts = (Some e, h, acts)"
      using add_option_unknown [of h a eng acts] by blast
    with Cons.prems(1) 0 show ?thesis by auto
  next
    case (Suc j)
    show ?thesis
    proof (cases r1)
      case None
      with Cons.prems step have rest: "add_options eng as h1 acts1 = (r, h', acts')" by simp
      from step None have step': "add_option eng a h acts = (None, h1, acts1)" by simp
      from add_option_ok [OF step'] have a1: "acts1 = acts @ [spec_call (h a)]" by simp
      have f1: "frame h h1" by (rule add_option_frame [OF step])
      from Cons.prems Suc have j: "j < length as" and "\<not> known_type (h (as ! j))" by auto
      with frame_known_type [OF f1] have "\<not> known_type (h1 (as ! j))" by simp
      from Cons.IH [OF rest j this] obtain e k where
        r: "r = Some e" and k: "k \<le> j" and
        acts': "acts' = acts1 @ map (\<lambda>a. spec_call (h1 a)) (take k as)"
        by blast
      have "map (\<lambda>b. spec_call (h1 b)) (take k as) = map (\<lambda>b. spec_call (h b)) (take k as)"
        by (simp add: frame_spec_call [OF f1])
      with acts' a1 have "acts' = acts @ map (\<lambda>a. spec_call (h a)) (take (Suc k) (a # as))"
        by simp
      with r k Suc show ?thesis by (intro conjI exI [of _ "Suc k"] exI [of _ e]) simp_all
    next
      case (Some e)
      with step have step': "add_option eng a h acts = (Some e, h1, acts1)" by simp
      from add_option_raise [OF step'] have "acts1 = acts" by simp
      with Cons.prems(1) step' show ?thesis by auto
    qed
  qed
qed

section \<open>The search for the help descriptor\<close>

lemma find_help_None:
  "find_help h opts = Inr None \<Longrightarrow> \<forall>a \<in> set opts. \<not> is_help (h a)"
  by (induction opts) (auto simp: is_help_def split: sum.splits if_splits)

lemma find_help_Some:
  "find_help h opts = Inr (Some a) \<Longrightarrow> a \<in> set opts \<and> is_help (h a)"
  by (induction opts) (auto simp: is_help_def split: sum.splits if_splits)

lemma count_help_0: "count_help h opts = 0 \<longleftrightarrow> (\<forall>a \<in> set opts. \<not> is_help (h a))"
  by (auto simp: count_help_def filter_empty_conv)

section \<open>The constructor\<close>

lemma init_completed:
  assumes "ArgumentParser_init eng opts m_err x_err m_use x_use h = (None, h', p)"
  shows "\<exists>found. find_help h opts = Inr found \<and>
           options p = (case found of Some a \<Rightarrow> opts | None \<Rightarrow> opts @ [OPT_DEFAULT_HELP]) \<and>
           opt_help p = Some (case found of Some a \<Rightarrow> a | None \<Rightarrow> OPT_DEFAULT_HELP) \<and>
           add_options eng (options p) h [] = (None, h', actions p) \<and>
           msg_error p = m_err \<and> exc_error p = x_err \<and>
           msg_usage p = m_use \<and> exc_usage p = x_use"
  using assms
  by (auto simp: ArgumentParser_init_def Let_def split: sum.splits prod.splits)

lemma init_frame:
  assumes "ArgumentParser_init eng opts m_err x_err m_use x_use h = (r, h', p)"
  shows "frame h h'"
  using assms
  by (auto simp: ArgumentParser_init_def Let_def frame_refl
      split: sum.splits prod.splits dest: add_options_frame)

section \<open>Evaluating the examples\<close>

lemmas eval_defs =
  construct_def ArgumentParser_init_def add_option_def add_normal_def add_switch_def
  add_positional_def add_help_def add_argument_def on_value_def strict_engine_def
  is_flag_def is_name_def valid_nargs_def is_int_one_def dict_get_def dict_has_def
  dict_set_def store_set_def sample_store_def OPT_DEFAULT_HELP_def OPT_DEFAULT_HELP_dict_def
  cmdoptions_def Let_def known_type_def is_help_def count_help_def

lemma triple_collapse: "x = (fst x, fst (snd x), snd (snd x))"
  by simp

section \<open>Claim C8: a descriptor of unrecognised type\<close>

text \<open>
  Claim C8. If the descriptor list holds, at any position \<open>i\<close>, a descriptor whose
  \<^verbatim>\<open>type\<close> is none of \<^verbatim>\<open>"normal"\<close>, \<^verbatim>\<open>"switch"\<close>, \<^verbatim>\<open>"positional"\<close>, \<^verbatim>\<open>"help"\<close> (or
  has no \<^verbatim>\<open>type\<close> at all), the constructor ends with an exception, whatever the engine
  does. The registrations the engine has then accepted are those of the first \<open>k\<close>
  descriptors of the list, for some \<open>k\<close> not above \<open>i\<close>: the descriptor at position
  \<open>i\<close> is never registered.
\<close>

theorem unknown_type_fails:
  assumes "i < length opts"
    and "\<not> known_type (h (opts ! i))"
    and "ArgumentParser_init eng opts m_err x_err m_use x_use h = (r, h', p)"
  shows "(\<exists>e. r = Some e) \<and>
         (\<exists>k \<le> i. actions p = map (\<lambda>a. spec_call (h a)) (take k opts))"
proof (cases "find_help h opts")
  case (Inl e)
  with assms(3) show ?thesis by (auto simp: ArgumentParser_init_def)
next
  case (Inr found)
  define opts' where "opts' = (case found of Some a \<Rightarrow> opts | None \<Rightarrow> opts @ [OPT_DEFAULT_HELP])"
  from assms(1) have i: "i < length opts'" and nth: "opts' ! i = opts ! i"
    by (auto simp: opts'_def nth_append split: option.splits)
  from assms(3) Inr have run: "add_options eng opts' h [] = (r, h', actions p)"
    by (auto simp: ArgumentParser_init_def Let_def opts'_def split: prod.splits)
  from assms(2) nth have "\<not> known_type (h (opts' ! i))" by simp
  from add_options_unknown [OF run i this] obtain e k where
    r: "r = Some e" and k: "k \<le> i" and
    a: "actions p = map (\<lambda>a. spec_call (h a)) (take k opts')"
    by auto
  from k assms(1) have "take k opts' = take k opts"
    by (auto simp: opts'_def split: option.splits)
  with r k a show ?thesis by auto
qed

theorem unknown_type_fails_witness:
  "(1::nat) < length [1, 6, 3 :: addr] \<and> \<not> known_type (sample_store ([1, 6, 3] ! 1)) \<and>
   fst (construct [1, 6, 3]) = Some Exception \<and>
   actions (snd (snd (construct [1, 6, 3]))) = [spec_call (sample_store 1)]"
proof -
  have a: "(1::nat) < length [1, 6, 3 :: addr]" by simp
  have b: "\<not> known_type (sample_store ([1, 6, 3] ! 1))" by code_simp
  have c: "ArgumentParser_init strict_engine [1, 6, 3] MSG_SYNTAX_ERROR EXITCODE_ERROR
             MSG_USAGE_HELP EXITCODE_USAGE sample_store =
           (fst (construct [1, 6, 3]), fst (snd (construct [1, 6, 3])),
            snd (snd (construct [1, 6, 3])))"
    by (simp add: construct_def)
  have d: "actions (snd (snd (construct [1, 6, 3]))) = [spec_call (sample_store 1)]"
    by code_simp
  from unknown_type_fails [OF a b c] obtain e where "fst (construct [1, 6, 3]) = Some e"
    by blast
  moreover have "fst (construct [1, 6, 3]) = Some Exception" by code_simp
  ultimately show ?thesis using a b d by blast
qed

section \<open>Completed constructions\<close>

lemma init_no_help:
  assumes "ArgumentParser_init eng opts m_err x_err m_use x_use h = (None, h', p)"
    and "\<forall>a \<in> set opts. \<not> is_help (h a)"
  shows "options p = opts @ [OPT_DEFAULT_HELP] \<and> opt_help p = Some OPT_DEFAULT_HELP \<and>
         add_options eng (opts @ [OPT_DEFAULT_HELP]) h [] = (None, h', actions p)"
proof -
  from init_completed [OF assms(1)] obtain found where
    f: "find_help h opts = Inr found" and
    o: "options p = (case found of Some a \<Rightarrow> opts | None \<Rightarrow> opts @ [OPT_DEFAULT_HELP])" and
    oh: "opt_help p = Some (case found of Some a \<Rightarrow> a | None \<Rightarrow> OPT_DEFAULT_HELP)" and
    run: "add_options eng (options p) h [] = (None, h', actions p)"
    by blast
  have "found = None"
  proof (cases found)
    case None
    then show ?thesis .
  next
    case (Some a)
    with f find_help_Some [of h opts a] assms(2) show ?thesis by blast
  qed
  with o oh run show ?thesis by simp
qed

lemma init_registered:
  assumes "ArgumentParser_init eng opts m_err x_err m_use x_use h = (None, h', p)"
  shows "\<forall>a \<in> set (options p). registered h' a"
proof -
  from init_completed [OF assms] have "add_options eng (options p) h [] = (None, h', actions p)"
    by blast
  from add_options_ok [OF this] show ?thesis by simp
qed

lemma init_opt_help:
  assumes "ArgumentParser_init eng opts m_err x_err m_use x_use h = (None, h', p)"
    and "is_help (h OPT_DEFAULT_HELP)"
  shows "\<exists>a. opt_help p = Some a \<and> a \<in> set (options p) \<and> is_help (h' a) \<and>
             dict_has (h' a) ''long''"
proof -
  from init_completed [OF assms(1)] obtain found where
    f: "find_help h opts = Inr found" and
    o: "options p = (case found of Some a \<Rightarrow> opts | None \<Rightarrow> opts @ [OPT_DEFAULT_HELP])" and
    oh: "opt_help p = Some (case found of Some a \<Rightarrow> a | None \<Rightarrow> OPT_DEFAULT_HELP)"
    by blast
  define a where "a = (case found of Some a \<Rightarrow> a | None \<Rightarrow> OPT_DEFAULT_HELP)"
  have mem: "a \<in> set (options p)" and hp: "is_help (h a)"
    using f o find_help_Some [of h opts] assms(2) by (cases found; auto simp: a_def)+
  from mem init_registered [OF assms(1)] have reg: "registered h' a" by blast
  have "is_help (h' a)"
    using hp frame_is_help [OF init_frame [OF assms(1)]] by simp
  with reg oh mem show ?thesis by (auto simp: registered_def a_def)
qed

lemma init_default_written:
  assumes "ArgumentParser_init eng opts m_err x_err m_use x_use h = (None, h', p)"
    and "\<forall>a \<in> set opts. \<not> is_help (h a)"
    and "is_help (h OPT_DEFAULT_HELP)"
  shows "h' OPT_DEFAULT_HELP =
           dict_set (h OPT_DEFAULT_HELP) ''syntax'' (PStr (spec_syntax (h OPT_DEFAULT_HELP)))"
proof -
  from assms(2,3) have notin: "OPT_DEFAULT_HELP \<notin> set opts" by blast
  from init_no_help [OF assms(1,2)] have
    run: "add_options eng (opts @ [OPT_DEFAULT_HELP]) h [] = (None, h', actions p)" by simp
  obtain r1 h1 acts1 where pre: "add_options eng opts h [] = (r1, h1, acts1)"
    by (cases "add_options eng opts h []") auto
  from run pre have r1: "r1 = None"
    by (cases r1) (simp_all add: add_options_append)
  from run pre r1 have "add_options eng [OPT_DEFAULT_HELP] h1 acts1 = (None, h', actions p)"
    by (simp add: add_options_append)
  then have "add_option eng OPT_DEFAULT_HELP h1 acts1 = (None, h', actions p)"
    by (cases "add_option eng OPT_DEFAULT_HELP h1 acts1") (auto split: option.splits)
  from add_option_ok [OF this] have
    "h' = store_set h1 OPT_DEFAULT_HELP ''syntax'' (PStr (spec_syntax (h1 OPT_DEFAULT_HELP)))"
    by simp
  moreover have "h1 OPT_DEFAULT_HELP = h OPT_DEFAULT_HELP"
    by (rule add_options_other [OF pre notin])
  ultimately show ?thesis by (simp add: store_set_def)
qed

section \<open>Claim C3: how many help descriptors the list holds\<close>

text \<open>
  Claim C3, as stated: after construction the list holds exactly one descriptor of type
  \<^verbatim>\<open>"help"\<close>. The first loop stops at the first help descriptor and nothing looks for a
  second: a list supplied with two help descriptors (addresses 3 and 7, flags
  \<^verbatim>\<open>-h/--help\<close> and \<^verbatim>\<open>-u/--usage\<close>) is constructed without an exception and holds two.
\<close>

theorem two_help_descriptors_counterexample:
  "fst (construct [3, 7]) = None \<and>
   count_help (fst (snd (construct [3, 7]))) (options (snd (snd (construct [3, 7])))) = 2"
  by (simp add: eval_defs)

text \<open>
  Claim C3, amended: after a completed construction the list holds at least one
  descriptor of type \<^verbatim>\<open>"help"\<close>: the help descriptors supplied, all of them, or the one
  default descriptor appended when none was supplied (the module's default descriptor
  being of type \<^verbatim>\<open>"help"\<close>, as it is created). \<^verbatim>\<open>print_help\<close> and \<^verbatim>\<open>error\<close> only read the
  list and the store.
\<close>

theorem help_descriptor_count:
  assumes "ArgumentParser_init eng opts m_err x_err m_use x_use h = (None, h', p)"
    and "is_help (h OPT_DEFAULT_HELP)"
  shows "count_help h' (options p) = max 1 (count_help h opts)"
proof -
  have fr: "frame h h'" by (rule init_frame [OF assms(1)])
  from init_completed [OF assms(1)] obtain found where
    f: "find_help h opts = Inr found" and
    o: "options p = (case found of Some a \<Rightarrow> opts | None \<Rightarrow> opts @ [OPT_DEFAULT_HELP])"
    by blast
  show ?thesis
  proof (cases found)
    case None
    with f have "count_help h opts = 0"
      using find_help_None [of h opts] by (simp add: count_help_0)
    moreover from None o assms(2) have "count_help h (options p) = count_help h opts + 1"
      by (simp add: count_help_def)
    ultimately show ?thesis by (simp add: frame_count_help [OF fr])
  next
    case (Some a)
    with f find_help_Some [of h opts a] have "count_help h opts \<noteq> 0"
      by (auto simp: count_help_0)
    with Some o show ?thesis by (simp add: frame_count_help [OF fr] max_def)
  qed
qed

theorem help_descriptor_count_witness:
  "fst (construct cmdoptions) = None \<and> is_help (sample_store OPT_DEFAULT_HELP) \<and>
   count_help (fst (snd (construct cmdoptions))) (options (snd (snd (construct cmdoptions)))) =
     max 1 (count_help sample_store cmdoptions)"
proof -
  have a: "fst (construct cmdoptions) = None" by (simp add: eval_defs)
  have b: "is_help (sample_store OPT_DEFAULT_HELP)" by (simp add: eval_defs)
  have c: "ArgumentParser_init strict_engine cmdoptions MSG_SYNTAX_ERROR EXITCODE_ERROR
             MSG_USAGE_HELP EXITCODE_USAGE sample_store =
           (None, fst (snd (construct cmdoptions)), snd (snd (construct cmdoptions)))"
    using a by (simp add: construct_def prod_eq_iff)
  from help_descriptor_count [OF c b] a b show ?thesis by blast
qed

section \<open>Claim C6: the default help descriptor is appended\<close>

text \<open>
  Claim C6. For a descriptor list without a descriptor of type \<^verbatim>\<open>"help"\<close>, a completed
  construction has appended the default help descriptor, once and at the end of the
  list; that descriptor has short \<^verbatim>\<open>-h\<close>, long \<^verbatim>\<open>--help\<close>, name \<^verbatim>\<open>help\<close> and help text
  \<^verbatim>\<open>Display this message\<close>; and every descriptor of the list, the appended one with
  \<^verbatim>\<open>-h, --help\<close>, carries the \<^verbatim>\<open>syntax\<close> text the specification gives for it.
\<close>

theorem default_help_appended:
  assumes "ArgumentParser_init eng opts m_err x_err m_use x_use h = (None, h', p)"
    and "\<forall>a \<in> set opts. \<not> is_help (h a)"
    and "default_help_intact h"
  shows "options p = opts @ [OPT_DEFAULT_HELP] \<and> opt_help p = Some OPT_DEFAULT_HELP \<and>
         default_help_intact h' \<and>
         dict_get (h' OPT_DEFAULT_HELP) ''syntax'' = Inr (PStr ''-h, --help'') \<and>
         (\<forall>a \<in> set (options p). dict_get (h' a) ''syntax'' = Inr (PStr (spec_syntax (h' a))))"
proof -
  have fr: "frame h h'" by (rule init_frame [OF assms(1)])
  from assms(3) have ih: "is_help (h OPT_DEFAULT_HELP)"
    by (simp add: default_help_intact_def is_help_def)
  from assms(3) have sx: "spec_syntax (h OPT_DEFAULT_HELP) = ''-h, --help''"
    by (simp add: default_help_intact_def spec_syntax_def field_def)
  from init_no_help [OF assms(1,2)] have
    o: "options p = opts @ [OPT_DEFAULT_HELP]" and oh: "opt_help p = Some OPT_DEFAULT_HELP"
    by simp_all
  have reg: "\<forall>a \<in> set (options p). registered h' a" by (rule init_registered [OF assms(1)])
  have "dict_get (h' OPT_DEFAULT_HELP) ''syntax'' = Inr (PStr ''-h, --help'')"
    by (simp add: init_default_written [OF assms(1,2) ih] sx dict_get_set)
  with o oh reg assms(3) show ?thesis
    by (simp add: frame_intact [OF fr] registered_def)
qed

theorem default_help_appended_witness:
  "fst (construct [1, 2, 4, 5]) = None \<and>
   count_help sample_store [1, 2, 4, 5] = 0 \<and> default_help_intact sample_store \<and>
   options (snd (snd (construct [1, 2, 4, 5]))) = [1, 2, 4, 5] @ [OPT_DEFAULT_HELP] \<and>
   dict_get (fst (snd (construct [1, 2, 4, 5])) OPT_DEFAULT_HELP) ''syntax''
     = Inr (PStr ''-h, --help'')"
proof -
  have a: "fst (construct [1, 2, 4, 5]) = None" by (simp add: eval_defs)
  have b: "\<forall>a \<in> set [1, 2, 4, 5]. \<not> is_help (sample_store a)" by (simp add: eval_defs)
  have c: "default_help_intact sample_store"
    by (simp add: default_help_intact_def eval_defs)
  have d: "ArgumentParser_init strict_engine [1, 2, 4, 5] MSG_SYNTAX_ERROR EXITCODE_ERROR
             MSG_USAGE_HELP EXITCODE_USAGE sample_store =
           (None, fst (snd (construct [1, 2, 4, 5])), snd (snd (construct [1, 2, 4, 5])))"
    using a by (simp add: construct_def prod_eq_iff)
  have b0: "count_help sample_store [1, 2, 4, 5] = 0"
    using b by (simp only: count_help_0)
  from default_help_appended [OF d b c] a b0 c show ?thesis by blast
qed

section \<open>Claim C10: the default help descriptor is one shared object\<close>

text \<open>
  Claim C10. Starting from the store as the module is loaded, a construction for a
  list without a help descriptor appends the address of \<^verbatim>\<open>OPT_DEFAULT_HELP\<close> itself
  and writes the key \<^verbatim>\<open>syntax\<close> into that object, so the module-level dictionary is no
  longer what it was created as; a later construction for another list without a
  help descriptor appends the same address, whose object already carries \<^verbatim>\<open>syntax\<close>.
\<close>

theorem default_help_shared:
  assumes "h OPT_DEFAULT_HELP = OPT_DEFAULT_HELP_dict"
    and "\<forall>a \<in> set opts1. \<not> is_help (h a)"
    and "ArgumentParser_init eng1 opts1 m_err1 x_err1 m_use1 x_use1 h = (None, h1, p1)"
    and "\<forall>a \<in> set opts2. \<not> is_help (h1 a)"
    and "ArgumentParser_init eng2 opts2 m_err2 x_err2 m_use2 x_use2 h1 = (None, h2, p2)"
  shows "options p1 = opts1 @ [OPT_DEFAULT_HELP] \<and> opt_help p1 = Some OPT_DEFAULT_HELP \<and>
         h1 OPT_DEFAULT_HELP = OPT_DEFAULT_HELP_dict @ [(''syntax'', PStr ''-h, --help'')] \<and>
         options p2 = opts2 @ [OPT_DEFAULT_HELP] \<and> opt_help p2 = Some OPT_DEFAULT_HELP \<and>
         h1 OPT_DEFAULT_HELP \<noteq> h OPT_DEFAULT_HELP \<and>
         dict_has (h1 OPT_DEFAULT_HELP) ''syntax'' \<and>
         h2 OPT_DEFAULT_HELP = h1 OPT_DEFAULT_HELP"
proof -
  from assms(1) have ih: "is_help (h OPT_DEFAULT_HELP)"
    by (simp add: is_help_def OPT_DEFAULT_HELP_dict_def dict_get_def)
  have ih1: "is_help (h1 OPT_DEFAULT_HELP)"
    using ih frame_is_help [OF init_frame [OF assms(3)]] by simp
  have w1: "h1 OPT_DEFAULT_HELP = OPT_DEFAULT_HELP_dict @ [(''syntax'', PStr ''-h, --help'')]"
    by (simp add: init_default_written [OF assms(3,2) ih] assms(1) spec_syntax_def field_def
        OPT_DEFAULT_HELP_dict_def dict_get_def dict_set_def)
  have w2: "h2 OPT_DEFAULT_HELP = h1 OPT_DEFAULT_HELP"
    by (simp add: init_default_written [OF assms(5,4) ih1] w1 spec_syntax_def field_def
        OPT_DEFAULT_HELP_dict_def dict_get_def dict_set_def)
  have w3: "dict_has (h1 OPT_DEFAULT_HELP) ''syntax''"
    by (simp add: w1 dict_has_def OPT_DEFAULT_HELP_dict_def)
  from init_no_help [OF assms(3,2)] init_no_help [OF assms(5,4)] w1 w2 w3 assms(1)
  show ?thesis by simp
qed

theorem default_help_shared_witness:
  "sample_store OPT_DEFAULT_HELP = OPT_DEFAULT_HELP_dict \<and>
   fst (construct [1, 2]) = None \<and> fst second_run = None \<and>
   options (snd (snd (construct [1, 2]))) = [1, 2, OPT_DEFAULT_HELP] \<and>
   options (snd (snd second_run)) = [4, 5, OPT_DEFAULT_HELP] \<and>
   fst (snd (construct [1, 2])) OPT_DEFAULT_HELP =
     OPT_DEFAULT_HELP_dict @ [(''syntax'', PStr ''-h, --help'')]"
proof -
  have a: "sample_store OPT_DEFAULT_HELP = OPT_DEFAULT_HELP_dict"
    by (simp add: sample_store_def OPT_DEFAULT_HELP_def)
  have b: "\<forall>a \<in> set [1, 2]. \<not> is_help (sample_store a)" by (simp add: eval_defs)
  have c0: "fst (construct [1, 2]) = None" by (simp add: eval_defs)
  have c: "ArgumentParser_init strict_engine [1, 2] MSG_SYNTAX_ERROR EXITCODE_ERROR
             MSG_USAGE_HELP EXITCODE_USAGE sample_store =
           (None, fst (snd (construct [1, 2])), snd (snd (construct [1, 2])))"
    using c0 by (simp add: construct_def prod_eq_iff)
  have fr: "frame sample_store (fst (snd (construct [1, 2])))"
    by (rule init_frame [OF c])
  have d: "\<forall>a \<in> set [4, 5]. \<not> is_help (fst (snd (construct [1, 2])) a)"
    by (simp add: frame_is_help [OF fr]) (simp add: eval_defs)
  have e0: "fst second_run = None" by (simp add: second_run_def eval_defs)
  have e: "ArgumentParser_init strict_engine [4, 5] MSG_SYNTAX_ERROR EXITCODE_ERROR
             MSG_USAGE_HELP EXITCODE_USAGE (fst (snd (construct [1, 2]))) =
           (None, fst (snd second_run), snd (snd second_run))"
    using e0 by (simp add: second_run_def prod_eq_iff)
  from default_help_shared [OF a b c d e] a c0 e0 show ?thesis by simp
qed

section \<open>Templates with no or one placeholder\<close>

lemma fmt_plain:
  "CHR ''%'' \<notin> set t \<Longrightarrow> fmt Lit t args = (if args = [] then Inr t else Inl TypeError)"
  by (induction t) auto

lemma fmt_one_placeholder:
  assumes "CHR ''%'' \<notin> set pre" and "CHR ''%'' \<notin> set post"
  shows "fmt Lit (pre @ ''%s'' @ post) [v] = Inr (pre @ py_str v @ post)"
  using assms(1)
proof (induction pre)
  case Nil
  show ?case by (simp add: fmt_plain [OF assms(2)] is_digit_def)
next
  case (Cons c pre)
  then show ?case by auto
qed

lemma no_placeholder: "CHR ''%'' \<notin> set MSG_SYNTAX_ERROR"
  by (simp add: MSG_SYNTAX_ERROR_def)

section \<open>Claim C9: the default error message has no placeholder\<close>

text \<open>
  Claim C9. \<^verbatim>\<open>MSG_SYNTAX_ERROR\<close> contains no \<^verbatim>\<open>%\<close>, so for a parser constructed with it
  \<^verbatim>\<open>error\<close> raises the TypeError of the \<^verbatim>\<open>%\<close> operator (not all arguments converted),
  whatever the engine's message: nothing is written and \<^verbatim>\<open>sys.exit\<close> is not reached.
  The store is one in which the module's default help descriptor is of type
  \<^verbatim>\<open>"help"\<close>, as it is created.
\<close>

theorem default_message_raises:
  assumes "ArgumentParser_init eng opts MSG_SYNTAX_ERROR x_err m_use x_use h = (None, h', p)"
    and "is_help (h OPT_DEFAULT_HELP)"
  shows "CHR ''%'' \<notin> set (msg_error p) \<and> error p h' message = ([], TypeError)"
proof -
  from init_completed [OF assms(1)] have m: "msg_error p = MSG_SYNTAX_ERROR" by blast
  from init_opt_help [OF assms] obtain a where
    oh: "opt_help p = Some a" and "dict_has (h' a) ''long''" by blast
  then obtain l where l: "dict_get (h' a) ''long'' = Inr l"
    by (auto simp: dict_has_get)
  have "py_format MSG_SYNTAX_ERROR [l] = Inl TypeError"
    by (simp add: py_format_def fmt_plain [OF no_placeholder])
  with oh l m no_placeholder show ?thesis by (simp add: error_def engine_exit_def)
qed

theorem default_message_raises_witness:
  "fst (construct cmdoptions) = None \<and> is_help (sample_store OPT_DEFAULT_HELP) \<and>
   error (snd (snd (construct cmdoptions))) (fst (snd (construct cmdoptions)))
     ''unrecognized arguments: --bogus'' = ([], TypeError)"
proof -
  have a: "fst (construct cmdoptions) = None" by (simp add: eval_defs)
  have b: "is_help (sample_store OPT_DEFAULT_HELP)" by (simp add: eval_defs)
  have c: "ArgumentParser_init strict_engine cmdoptions MSG_SYNTAX_ERROR EXITCODE_ERROR
             MSG_USAGE_HELP EXITCODE_USAGE sample_store =
           (None, fst (snd (construct cmdoptions)), snd (snd (construct cmdoptions)))"
    using a by (simp add: construct_def prod_eq_iff)
  from default_message_raises [OF c b] a b show ?thesis by blast
qed

section \<open>Claim C5: \<^verbatim>\<open>error\<close> with a template of one placeholder\<close>

text \<open>
  Claim C5. For a parser constructed with an error message that is literal text around
  exactly one \<^verbatim>\<open>%s\<close>, \<^verbatim>\<open>error\<close> gives the same result for every engine message: it
  writes the template with the placeholder replaced by the \<^verbatim>\<open>long\<close> entry of the help
  descriptor, followed by a newline, and raises \<^verbatim>\<open>SystemExit\<close> with the configured
  error exit code.
\<close>

theorem error_message_and_exit:
  assumes "ArgumentParser_init eng opts (pre @ ''%s'' @ post) x_err m_use x_use h = (None, h', p)"
    and "is_help (h OPT_DEFAULT_HELP)"
    and "CHR ''%'' \<notin> set pre" and "CHR ''%'' \<notin> set post"
  shows "\<exists>a l. opt_help p = Some a \<and> is_help (h' a) \<and> dict_get (h' a) ''long'' = Inr l \<and>
           error p h' message = (pre @ py_str l @ post @ [CHR 0x0A], SystemExit x_err)"
proof -
  from init_completed [OF assms(1)] have
    m: "msg_error p = pre @ ''%s'' @ post" and x: "exc_error p = x_err" by blast+
  from init_opt_help [OF assms(1,2)] obtain a where
    oh: "opt_help p = Some a" and ih: "is_help (h' a)" and "dict_has (h' a) ''long''" by blast
  then obtain l where l: "dict_get (h' a) ''long'' = Inr l"
    by (auto simp: dict_has_get)
  have "py_format (pre @ ''%s'' @ post) [l] = Inr (pre @ py_str l @ post)"
    unfolding py_format_def by (rule fmt_one_placeholder [OF assms(3,4)])
  with oh l m x have "error p h' message = (pre @ py_str l @ post @ [CHR 0x0A], SystemExit x_err)"
    by (simp add: error_def engine_exit_def)
  with oh ih l show ?thesis by blast
qed

theorem error_message_and_exit_witness:
  "fst example_run = None \<and> is_help (sample_store OPT_DEFAULT_HELP) \<and>
   CHR ''%'' \<notin> set ''Invalid or insufficient command line. Use '' \<and>
   CHR ''%'' \<notin> set '' for detailed usage information.'' \<and>
   dict_get (fst (snd example_run) 3) ''long'' = Inr (PStr ''--help'') \<and>
   error (snd (snd example_run)) (fst (snd example_run)) ''unrecognized arguments: --bogus'' =
     (''Invalid or insufficient command line. Use --help for detailed usage information.''
        @ [CHR 0x0A], SystemExit 2)"
proof -
  have a: "fst example_run = None" by (simp add: example_run_def eval_defs)
  have b: "is_help (sample_store OPT_DEFAULT_HELP)" by (simp add: eval_defs)
  have c: "CHR ''%'' \<notin> set ''Invalid or insufficient command line. Use ''" by simp
  have d: "CHR ''%'' \<notin> set '' for detailed usage information.''" by simp
  have e: "ArgumentParser_init strict_engine cmdoptions
             (''Invalid or insufficient command line. Use '' @ ''%s''
                @ '' for detailed usage information.'')
             2 example_msg_usage 0 sample_store =
           (None, fst (snd example_run), snd (snd example_run))"
    using a by (simp add: example_run_def example_msg_error_def prod_eq_iff)
  have f: "opt_help (snd (snd example_run)) = Some 3"
    by (simp add: example_run_def eval_defs)
  have g: "dict_get (fst (snd example_run) 3) ''long'' = Inr (PStr ''--help'')"
    by (simp add: example_run_def eval_defs)
  from error_message_and_exit [OF e b c d, of "''unrecognized arguments: --bogus''"] f g
  have "error (snd (snd example_run)) (fst (snd example_run))
          ''unrecognized arguments: --bogus'' =
        (''Invalid or insufficient command line. Use '' @ py_str (PStr ''--help'')
           @ '' for detailed usage information.'' @ [CHR 0x0A], SystemExit 2)"
    by auto
  with a b c d g show ?thesis by simp
qed

section \<open>The width of a column\<close>

lemma digit_char_digit: "n < 10 \<Longrightarrow> is_digit (digit_char n) \<and> digit_val (digit_char n) = n"
  by (simp add: is_digit_def digit_val_def digit_char_def)

lemma fmt_width:
  "fmt (Spec left w) (dec_nat n @ rest) args =
     fmt (Spec left (w * 10 ^ length (dec_nat n) + n)) rest args"
proof (induction n arbitrary: w rest rule: dec_nat.induct)
  case (1 n)
  show ?case
  proof (cases "n < 10")
    case True
    then have "dec_nat n = [digit_char n]" by (simp add: dec_nat.simps [of n])
    with digit_char_digit [OF True] show ?thesis by (simp add: mult.commute)
  next
    case False
    then have d: "dec_nat n = dec_nat (n div 10) @ [digit_char (n mod 10)]"
      by (simp add: dec_nat.simps [of n])
    have m: "n mod 10 < 10" by simp
    have "fmt (Spec left w) (dec_nat n @ rest) args =
            fmt (Spec left w) (dec_nat (n div 10) @ (digit_char (n mod 10) # rest)) args"
      by (simp add: d)
    also have "\<dots> = fmt (Spec left (w * 10 ^ length (dec_nat (n div 10)) + n div 10))
                       (digit_char (n mod 10) # rest) args"
      by (rule "1.IH" [OF False])
    also have "\<dots> = fmt (Spec left (10 * (w * 10 ^ length (dec_nat (n div 10)) + n div 10)
                                   + n mod 10)) rest args"
      using digit_char_digit [OF m] by simp
    also have "10 * (w * 10 ^ length (dec_nat (n div 10)) + n div 10) + n mod 10 =
               w * 10 ^ length (dec_nat n) + n"
      by (simp add: d algebra_simps)
    finally show ?thesis .
  qed
qed

lemma py_format_row:
  "py_format (''  %-'' @ dec_nat w @ ''s%s'') [s, hp] =
     Inr (''  '' @ ljust w (py_str s) @ py_str hp)"
  using fmt_width [of True 0 w "''s%s''" "[s, hp]"]
  by (simp add: py_format_def is_digit_def)

section \<open>No step of \<^verbatim>\<open>print_help\<close> but the last raises \<^verbatim>\<open>SystemExit\<close>\<close>

lemma dict_get_not_exit: "dict_get d k \<noteq> Inl (SystemExit c)"
  by (simp add: dict_get_def split: option.splits)

lemma and_then_raises:
  "and_then r k = Inl e \<Longrightarrow> r = Inl e \<or> (\<exists>v. r = Inr v \<and> k v = Inl e)"
  by (cases r) simp_all

lemma fmt_not_exit: "fmt st t args \<noteq> Inl (SystemExit c)"
  by (induction st t args rule: fmt.induct) (auto simp: emit_def split: sum.splits list.splits)

lemma py_format_not_exit: "py_format t args \<noteq> Inl (SystemExit c)"
  by (simp add: py_format_def fmt_not_exit)

lemma py_upper_not_exit: "py_upper v \<noteq> Inl (SystemExit c)"
  by (cases v) simp_all

lemma py_len_not_exit: "py_len v \<noteq> Inl (SystemExit c)"
  by (cases v) simp_all

lemma py_range_not_exit: "py_range v \<noteq> Inl (SystemExit c)"
  by (cases v) simp_all

lemma display_name_not_exit: "display_name d \<noteq> Inl (SystemExit c)"
  by (auto simp: display_name_def dict_get_not_exit py_upper_not_exit dest!: and_then_raises)

lemma repeat_name_not_exit: "repeat_name k d acc \<noteq> Inl (SystemExit c)"
  by (induction k arbitrary: acc)
     (auto simp: display_name_not_exit py_format_not_exit dest!: and_then_raises)

lemma usage_segment_not_exit: "usage_segment d acc \<noteq> Inl (SystemExit c)"
  by (auto simp: usage_segment_def dict_get_not_exit display_name_not_exit py_format_not_exit
      py_range_not_exit repeat_name_not_exit dest!: and_then_raises split: if_splits)

lemma positional_usage_not_exit: "positional_usage h opts acc \<noteq> Inl (SystemExit c)"
  by (induction opts arbitrary: acc)
     (auto simp: dict_get_not_exit usage_segment_not_exit dest!: and_then_raises split: if_splits)

lemma max_syntax_not_exit: "max_syntax h opts m \<noteq> Inl (SystemExit c)"
  by (induction opts arbitrary: m)
     (auto simp: dict_get_not_exit py_len_not_exit dest!: and_then_raises split: if_splits)

lemma option_line_not_exit: "option_line d t \<noteq> Inl (SystemExit c)"
  by (auto simp: option_line_def dict_get_not_exit py_format_not_exit dest!: and_then_raises
      split: if_splits)

lemma print_option_lines_not_exit:
  "print_option_lines h t opts out \<noteq> (out', Some (SystemExit c))"
  by (induction opts arbitrary: out)
     (auto simp: option_line_not_exit split: sum.splits option.splits)

section \<open>The two loops of the listing\<close>

lemma max_syntax_Inr:
  "max_syntax h opts m = Inr M \<Longrightarrow> M = Max (set (m # map (syntax_len h) opts))"
proof (induction opts arbitrary: m)
  case Nil
  then show ?case by simp
next
  case (Cons a as)
  from Cons.prems obtain v n where
    v: "dict_get (h a) ''syntax'' = Inr v" and n: "py_len v = Inr n" and
    rest: "max_syntax h as (if n > m then n else m) = Inr M"
    by (auto simp: and_then_eq_Inr)
  from n have "v = PStr (py_str v)" and "n = length (py_str v)" by (cases v; simp)+
  with v have len: "syntax_len h a = n" by (simp add: syntax_len_def field_def)
  have "(if n > m then n else m) = max m n" by (simp add: max_def)
  with Cons.IH [OF rest] have "M = Max (set (max m n # map (syntax_len h) as))" by simp
  also have "\<dots> = Max (set (m # map (syntax_len h) (a # as)))"
    by (cases "as = []") (simp_all add: len max.assoc)
  finally show ?case .
qed

lemma option_line_Some:
  assumes "option_line (h a) (''  %-'' @ dec_nat w @ ''s%s'') = Inr (Some line)"
  shows "field (h a) ''type'' \<noteq> PStr ''positional'' \<and> line = help_line h w a"
proof -
  from assms obtain t s hp where
    t: "dict_get (h a) ''type'' = Inr t" and tp: "t \<noteq> PStr ''positional''" and
    s: "dict_get (h a) ''syntax'' = Inr s" and hp: "dict_get (h a) ''help'' = Inr hp" and
    l: "py_format (''  %-'' @ dec_nat w @ ''s%s'') [s, hp] = Inr line"
    by (auto simp: option_line_def and_then_eq_Inr split: if_splits)
  from l py_format_row [of w s hp] have "line = ''  '' @ ljust w (py_str s) @ py_str hp"
    by simp
  with t tp s hp show ?thesis by (simp add: help_line_def field_def)
qed

lemma option_line_None:
  assumes "option_line (h a) t = Inr None"
  shows "field (h a) ''type'' = PStr ''positional''"
  using assms
  by (auto simp: option_line_def and_then_eq_Inr field_def split: if_splits)

lemma print_option_lines_ok:
  "print_option_lines h (''  %-'' @ dec_nat w @ ''s%s'') opts out = (out', None) \<Longrightarrow>
     out' = out @ map (help_line h w) (listed h opts)"
proof (induction opts arbitrary: out)
  case Nil
  then show ?case by (simp add: listed_def)
next
  case (Cons a as)
  show ?case
  proof (cases "option_line (h a) (''  %-'' @ dec_nat w @ ''s%s'')")
    case (Inl e)
    with Cons.prems show ?thesis by simp
  next
    case (Inr r)
    show ?thesis
    proof (cases r)
      case None
      with Inr Cons.prems have "print_option_lines h (''  %-'' @ dec_nat w @ ''s%s'') as out
                                  = (out', None)" by simp
      from Cons.IH [OF this] option_line_None [of h a] Inr None show ?thesis
        by (simp add: listed_def)
    next
      case (Some line)
      with Inr Cons.prems have "print_option_lines h (''  %-'' @ dec_nat w @ ''s%s'') as
                                  (out @ [line]) = (out', None)" by simp
      from Cons.IH [OF this] option_line_Some [of h a w line] Inr Some show ?thesis
        by (simp add: listed_def)
    qed
  qed
qed

lemma print_help_completed:
  assumes "print_help p h argv0 = (out, SystemExit c)"
  shows "\<exists>positional usage.
           positional_usage h (options p) [] = Inr positional \<and>
           py_format (msg_usage p) [PStr (basename argv0), PStr positional] = Inr usage \<and>
           out = usage # map (help_line h (maxlen_of h (options p) + 2)) (listed h (options p)) \<and>
           c = exc_usage p"
proof -
  from assms obtain positional where
    1: "positional_usage h (options p) [] = Inr positional"
    by (cases "positional_usage h (options p) []")
       (auto simp: print_help_def positional_usage_not_exit)
  from assms 1 obtain usage where
    2: "py_format (msg_usage p) [PStr (basename argv0), PStr positional] = Inr usage"
    by (cases "py_format (msg_usage p) [PStr (basename argv0), PStr positional]")
       (auto simp: print_help_def py_format_not_exit)
  from assms 1 2 obtain maxlen where
    3: "max_syntax h (options p) 0 = Inr maxlen"
    by (cases "max_syntax h (options p) 0") (auto simp: print_help_def max_syntax_not_exit)
  from max_syntax_Inr [OF 3] have m: "maxlen = maxlen_of h (options p)"
    by (simp add: maxlen_of_def)
  obtain out' r where
    4: "print_option_lines h (''  %-'' @ dec_nat (maxlen + 2) @ ''s%s'') (options p) [usage]
          = (out', r)"
    by (cases "print_option_lines h (''  %-'' @ dec_nat (maxlen + 2) @ ''s%s'') (options p)
                 [usage]") auto
  have r: "r = None"
  proof (cases r)
    case None
    then show ?thesis .
  next
    case (Some e)
    with assms 1 2 3 4 have "e = SystemExit c" and "out' = out"
      by (simp_all add: print_help_def)
    with 4 Some print_option_lines_not_exit show ?thesis by blast
  qed
  with assms 1 2 3 4 have o: "out' = out" and c: "c = exc_usage p"
    by (simp_all add: print_help_def)
  from print_option_lines_ok [of h "maxlen + 2" "options p" "[usage]" out'] 4 r
  have "out' = [usage] @ map (help_line h (maxlen + 2)) (listed h (options p))" by simp
  with 1 2 o c m show ?thesis by simp
qed

lemma syntax_len_le_maxlen: "a \<in> set opts \<Longrightarrow> syntax_len h a \<le> maxlen_of h opts"
  by (simp add: maxlen_of_def)

lemma length_ljust: "length s \<le> w \<Longrightarrow> length (ljust w s) = w"
  by (simp add: ljust_def)

section \<open>Claim C1: the column of the help text\<close>

text \<open>
  Claim C1, as stated: the help text of every listed line begins \<open>maxlen + 2\<close>
  characters from the start of the line, \<open>maxlen\<close> being taken over the non-positional
  descriptors, 22 for two options with \<^verbatim>\<open>syntax\<close> of 10 and 20 characters. The template
  of line 159 begins with two spaces before the field of width \<open>maxlen + 2\<close>, and the
  loop of lines 156 to 158 runs over every descriptor. For the help descriptor (10
  characters) and a valued option (20 characters) the help text begins at offset 24,
  not 22; with a positional whose name has 30 characters in the list, at offset 34.
\<close>

theorem help_column_counterexample:
  "snd (listing_output [3, 8]) = SystemExit 0 \<and>
   syntax_len (fst (snd (construct [3, 8]))) 3 = 10 \<and>
   syntax_len (fst (snd (construct [3, 8]))) 8 = 20 \<and>
   fst (listing_output [3, 8]) ! 1 = ''  -h, --help            Display this message'' \<and>
   fst (listing_output [3, 8]) ! 2 = ''  -l, --logfile=target  Log file to write to'' \<and>
   drop 22 (fst (listing_output [3, 8]) ! 1) \<noteq> ''Display this message'' \<and>
   drop 24 (fst (listing_output [3, 8]) ! 1) = ''Display this message'' \<and>
   syntax_len (fst (snd (construct [3, 8, 9]))) 9 = 30 \<and>
   fst (listing_output [3, 8, 9]) ! 1 = ''  -h, --help                      Display this message'' \<and>
   drop 34 (fst (listing_output [3, 8, 9]) ! 1) = ''Display this message''"
  by code_simp

text \<open>
  Claim C1, amended: when \<^verbatim>\<open>print_help\<close> runs to its \<^verbatim>\<open>sys.exit\<close>, the line printed for
  the \<open>i\<close>-th listed descriptor is two spaces, its \<^verbatim>\<open>syntax\<close> filled with spaces to
  \<open>maxlen + 2\<close> characters, and its help text; so the help text begins \<open>maxlen + 4\<close>
  characters from the start of the line, where \<open>maxlen\<close> is the greatest \<^verbatim>\<open>syntax\<close>
  length over all descriptors of the list, positional ones included.
\<close>

theorem help_text_column:
  assumes "print_help p h argv0 = (out, SystemExit c)"
    and "i < length (listed h (options p))"
  shows "length out = Suc (length (listed h (options p))) \<and>
         out ! Suc i =
           ''  '' @ ljust (maxlen_of h (options p) + 2)
                      (py_str (field (h (listed h (options p) ! i)) ''syntax''))
             @ py_str (field (h (listed h (options p) ! i)) ''help'') \<and>
         length (''  '' @ ljust (maxlen_of h (options p) + 2)
                           (py_str (field (h (listed h (options p) ! i)) ''syntax'')))
           = maxlen_of h (options p) + 4 \<and>
         drop (maxlen_of h (options p) + 4) (out ! Suc i)
           = py_str (field (h (listed h (options p) ! i)) ''help'')"
proof -
  define a where "a = listed h (options p) ! i"
  define M where "M = maxlen_of h (options p)"
  from print_help_completed [OF assms(1)] obtain usage where
    out: "out = usage # map (help_line h (M + 2)) (listed h (options p))"
    by (auto simp: M_def)
  from assms(2) have "a \<in> set (listed h (options p))" by (simp add: a_def)
  then have "a \<in> set (options p)" by (simp add: listed_def)
  then have "syntax_len h a \<le> M" unfolding M_def by (rule syntax_len_le_maxlen)
  then have len: "length (ljust (M + 2) (py_str (field (h a) ''syntax''))) = M + 2"
    by (simp add: length_ljust syntax_len_def)
  from out assms(2) have line: "out ! Suc i = help_line h (M + 2) a"
    by (simp add: a_def)
  define pfx where "pfx = ''  '' @ ljust (M + 2) (py_str (field (h a) ''syntax''))"
  from len have pre: "length pfx = M + 4" by (simp add: pfx_def)
  from line have line': "out ! Suc i = pfx @ py_str (field (h a) ''help'')"
    by (simp add: help_line_def pfx_def)
  from pre have "drop (M + 4) (pfx @ py_str (field (h a) ''help'')) = py_str (field (h a) ''help'')"
    by simp
  with line' pre out show ?thesis
    unfolding a_def M_def pfx_def by simp
qed

theorem help_text_column_witness:
  "snd (listing_output [3, 8, 9]) = SystemExit 0 \<and>
   (1::nat) < length (listed (fst (snd (construct [3, 8, 9]))) [3, 8, 9]) \<and>
   maxlen_of (fst (snd (construct [3, 8, 9]))) [3, 8, 9] = 30 \<and>
   drop 34 (fst (listing_output [3, 8, 9]) ! 2) = ''Log file to write to''"
proof -
  have o: "options (snd (snd (construct [3, 8, 9]))) = [3, 8, 9]" by code_simp
  have a: "print_help (snd (snd (construct [3, 8, 9]))) (fst (snd (construct [3, 8, 9])))
             ''/usr/bin/prog'' = (fst (listing_output [3, 8, 9]), SystemExit 0)"
    unfolding listing_output_def [symmetric] by (simp add: prod_eq_iff) code_simp
  have b: "(1::nat) < length (listed (fst (snd (construct [3, 8, 9])))
             (options (snd (snd (construct [3, 8, 9])))))"
    by code_simp
  have m: "maxlen_of (fst (snd (construct [3, 8, 9]))) [3, 8, 9] = 30" by code_simp
  have f: "py_str (field (fst (snd (construct [3, 8, 9])) (listed (fst (snd (construct [3, 8, 9])))
             [3, 8, 9] ! 1)) ''help'') = ''Log file to write to''"
    by code_simp
  from help_text_column [OF a b, THEN conjunct2, THEN conjunct2, THEN conjunct2] have
    "drop (maxlen_of (fst (snd (construct [3, 8, 9]))) [3, 8, 9] + 4)
       (fst (listing_output [3, 8, 9]) ! Suc 1) =
     py_str (field (fst (snd (construct [3, 8, 9])) (listed (fst (snd (construct [3, 8, 9])))
       [3, 8, 9] ! 1)) ''help'')"
    unfolding o by simp
  with m f have "drop 34 (fst (listing_output [3, 8, 9]) ! 2) = ''Log file to write to''"
    by (simp add: numeral_2_eq_2)
  moreover have "snd (listing_output [3, 8, 9]) = SystemExit 0" by code_simp
  ultimately show ?thesis using b m by (simp add: o)
qed

section \<open>Claim C2: the positionals of the usage line\<close>

lemma positional_usage_filter:
  "\<forall>a \<in> set opts. dict_has (h a) ''type'' \<Longrightarrow>
     positional_usage h opts acc =
     positional_usage h (filter (\<lambda>a. dict_get (h a) ''type'' = Inr (PStr ''positional'')) opts) acc"
  by (induction opts arbitrary: acc) (auto simp: dict_has_get)

text \<open>
  Claim C2, as stated: for the positionals \<^verbatim>\<open>infile\<close> (\<^verbatim>\<open>"+"\<close>) and \<^verbatim>\<open>outfile\<close> (count 1)
  the positional segment is exactly \<^verbatim>\<open>"INFILE... OUTFILE "\<close>. Line 150 adds the name and
  a space for each repetition, and line 151 one more space after every positional: for
  the descriptors of the module's \<^verbatim>\<open>example()\<close> the string ends in two spaces, and so
  does the segment in the usage line that \<^verbatim>\<open>print_help\<close> prints.
\<close>

theorem usage_positionals_counterexample:
  "positional_usage (fst (snd example_run)) (options (snd (snd example_run))) []
     = Inr ''INFILE... OUTFILE  '' \<and>
   positional_usage (fst (snd example_run)) (options (snd (snd example_run))) []
     \<noteq> Inr ''INFILE... OUTFILE '' \<and>
   take 52 (hd (fst (print_help (snd (snd example_run)) (fst (snd example_run)) ''/usr/bin/prog'')))
     = ''Usage: prog [OPTION]... INFILE... OUTFILE  '' @ [CHR 0x0A, CHR 0x0A] @ ''Example''"
  by code_simp

text \<open>
  Claim C2, amended: for every descriptor list whose positional descriptors are
  \<^verbatim>\<open>infile\<close> with \<^verbatim>\<open>nargs "+"\<close> and \<^verbatim>\<open>outfile\<close> with \<^verbatim>\<open>nargs 1\<close>, in this order and without
  \<^verbatim>\<open>display\<close>, the string \<^verbatim>\<open>print_help\<close> fills into the usage template is exactly
  \<^verbatim>\<open>"INFILE... OUTFILE  "\<close>, with two spaces at its end: names in upper case, \<^verbatim>\<open>...\<close> for
  \<^verbatim>\<open>"+"\<close>, the name and a space once for count 1, and a space after each positional.
\<close>

theorem usage_positionals:
  assumes "\<forall>a \<in> set opts. dict_has (h a) ''type''"
    and "filter (\<lambda>a. dict_get (h a) ''type'' = Inr (PStr ''positional'')) opts = [a1, a2]"
    and "dict_get (h a1) ''name'' = Inr (PStr ''infile'')"
    and "dict_get (h a1) ''nargs'' = Inr (PStr ''+'')"
    and "\<not> dict_has (h a1) ''display''"
    and "dict_get (h a2) ''name'' = Inr (PStr ''outfile'')"
    and "dict_get (h a2) ''nargs'' = Inr (PInt 1)"
    and "\<not> dict_has (h a2) ''display''"
  shows "positional_usage h opts [] = Inr ''INFILE... OUTFILE  ''"
proof -
  let ?P = "\<lambda>a. dict_get (h a) ''type'' = Inr (PStr ''positional'')"
  have "a1 \<in> set (filter ?P opts)" and "a2 \<in> set (filter ?P opts)"
    by (simp_all add: assms(2))
  then have t1: "dict_get (h a1) ''type'' = Inr (PStr ''positional'')"
    and t2: "dict_get (h a2) ''type'' = Inr (PStr ''positional'')"
    by simp_all
  have n1: "display_name (h a1) = Inr ''INFILE''"
    by (simp add: display_name_def assms(3,5) upper_char_def)
  have n2: "display_name (h a2) = Inr ''OUTFILE''"
    by (simp add: display_name_def assms(6,8) upper_char_def)
  have s1: "usage_segment (h a1) [] = Inr ''INFILE...''"
    by (simp add: usage_segment_def assms(4) n1 py_format_def is_digit_def)
  have "repeat_name (Suc 0) (h a2) ''INFILE... '' = Inr ''INFILE... OUTFILE ''"
    by (simp add: n2 py_format_def is_digit_def)
  then have s2: "usage_segment (h a2) ''INFILE... '' = Inr ''INFILE... OUTFILE ''"
    by (simp add: usage_segment_def assms(7))
  have "positional_usage h opts [] = positional_usage h [a1, a2] []"
    using positional_usage_filter [OF assms(1), of "[]"] assms(2) by simp
  also have "\<dots> = Inr ''INFILE... OUTFILE  ''"
    by (simp add: t1 t2 s1 s2)
  finally show ?thesis .
qed

theorem usage_positionals_witness:
  "positional_usage (fst (snd example_run)) cmdoptions [] = Inr ''INFILE... OUTFILE  ''"
proof -
  let ?h = "fst (snd example_run)"
  have a: "\<forall>a \<in> set cmdoptions. dict_has (?h a) ''type''" by code_simp
  have b: "filter (\<lambda>a. dict_get (?h a) ''type'' = Inr (PStr ''positional'')) cmdoptions = [4, 5]"
    by code_simp
  have c: "dict_get (?h 4) ''name'' = Inr (PStr ''infile'')" by code_simp
  have d: "dict_get (?h 4) ''nargs'' = Inr (PStr ''+'')" by code_simp
  have e: "\<not> dict_has (?h 4) ''display''" by code_simp
  have f: "dict_get (?h 5) ''name'' = Inr (PStr ''outfile'')" by code_simp
  have g: "dict_get (?h 5) ''nargs'' = Inr (PInt 1)" by code_simp
  have i: "\<not> dict_has (?h 5) ''display''" by code_simp
  from usage_positionals [OF a b c d e f g i] show ?thesis .
qed

section \<open>The mapping a parse returns\<close>

lemma init_actions:
  assumes "ArgumentParser_init eng opts m_err x_err m_use x_use h = (None, h', p)"
    and "i < length opts"
  shows "spec_call (h (opts ! i)) \<in> set (actions p)"
proof -
  from init_completed [OF assms(1)] obtain found :: "addr option" where
    o: "options p = (case found of Some a \<Rightarrow> opts | None \<Rightarrow> opts @ [OPT_DEFAULT_HELP])" and
    run: "add_options eng (options p) h [] = (None, h', actions p)"
    by blast
  from add_options_ok [OF run] have a: "actions p = map (\<lambda>a. spec_call (h a)) (options p)"
    by simp
  from assms(2) o have "opts ! i \<in> set (options p)"
    by (cases found) auto
  with a show ?thesis by simp
qed

lemma init_namespace_keep:
  "ns n = Some v \<Longrightarrow> init_namespace acts ns n = Some v"
proof (induction acts arbitrary: ns)
  case Nil
  then show ?case by simp
next
  case (Cons c cs)
  let ?ns = "if c_action c = Help \<or> ns (dest_of c) \<noteq> None then ns
             else ns(dest_of c \<mapsto> Scalar (default_of c))"
  from Cons.prems have "?ns n = Some v" by auto
  from Cons.IH [of ?ns, OF this] show ?case by simp
qed

lemma init_namespace_default:
  "C \<in> set acts \<Longrightarrow> stores_under C n \<Longrightarrow> \<forall>c \<in> set acts. stores_under c n \<longrightarrow> c = C \<Longrightarrow>
     ns n = None \<Longrightarrow> init_namespace acts ns n = Some (Scalar (default_of C))"
proof (induction acts arbitrary: ns)
  case Nil
  then show ?case by simp
next
  case (Cons c cs)
  show ?case
  proof (cases "stores_under c n")
    case True
    with Cons.prems(3) have "c = C" by simp
    with True Cons.prems(4) show ?thesis
      by (simp add: stores_under_def init_namespace_keep)
  next
    case False
    with Cons.prems(1,2) have mem: "C \<in> set cs" by auto
    from Cons.prems(3) have uniq: "\<forall>c \<in> set cs. stores_under c n \<longrightarrow> c = C" by simp
    let ?ns = "if c_action c = Help \<or> ns (dest_of c) \<noteq> None then ns
               else ns(dest_of c \<mapsto> Scalar (default_of c))"
    from False Cons.prems(4) have "?ns n = None"
      by (auto simp: stores_under_def)
    from Cons.IH [of ?ns, OF mem Cons.prems(2) uniq this] show ?thesis by simp
  qed
qed

lemma run_events_checked:
  "run_events p h argv0 evs ns0 = Parsed ns \<Longrightarrow>
     \<forall>ev \<in> set evs. fst ev \<in> set (actions p) \<and> arity_ok (fst ev) (snd ev)"
  by (induction evs arbitrary: ns0) (auto simp: failure_def split: if_splits)

lemma run_events_untouched:
  "run_events p h argv0 evs ns0 = Parsed ns \<Longrightarrow> \<forall>ev \<in> set evs. \<not> stores_under (fst ev) n \<Longrightarrow>
     ns n = ns0 n"
proof (induction evs arbitrary: ns0)
  case Nil
  then show ?case by simp
next
  case (Cons ev evs)
  from Cons.prems(2) have here: "\<not> stores_under (fst ev) n"
    and rest: "\<forall>ev \<in> set evs. \<not> stores_under (fst ev) n" by simp_all
  from Cons.prems(1) have nh: "c_action (fst ev) \<noteq> Help"
    by (auto simp: failure_def split: if_splits)
  with here have d: "dest_of (fst ev) \<noteq> n" by (simp add: stores_under_def)
  from Cons.prems(1) nh obtain v where
    "run_events p h argv0 evs (ns0(dest_of (fst ev) \<mapsto> v)) = Parsed ns"
    by (auto simp: failure_def split: if_splits)
  from Cons.IH [OF this rest] d show ?case by simp
qed

lemma run_events_scalar:
  assumes "c_action C = Store" and "c_nargs C = Some PNone" and "dest_of C = n"
  shows "run_events p h argv0 evs ns0 = Parsed ns \<Longrightarrow>
         \<forall>ev \<in> set evs. stores_under (fst ev) n \<longrightarrow> fst ev = C \<Longrightarrow>
         (\<exists>t. ns n = Some (Scalar (PStr t)) \<and> (C, [t]) \<in> set evs) \<or>
         (ns n = ns0 n \<and> C \<notin> set (map fst evs))"
proof (induction evs arbitrary: ns0)
  case Nil
  then show ?case by simp
next
  case (Cons ev evs)
  from Cons.prems(2) have rest: "\<forall>ev \<in> set evs. stores_under (fst ev) n \<longrightarrow> fst ev = C"
    by simp
  from Cons.prems(1) have nh: "c_action (fst ev) \<noteq> Help" and ar: "arity_ok (fst ev) (snd ev)"
    by (auto simp: failure_def split: if_splits)
  define v where "v = (if c_action (fst ev) = StoreTrue then Scalar (PBool True)
                       else get_values (fst ev) (snd ev))"
  from Cons.prems(1) nh have run: "run_events p h argv0 evs (ns0(dest_of (fst ev) \<mapsto> v)) = Parsed ns"
    by (auto simp: v_def failure_def split: if_splits)
  from Cons.IH [OF run rest] consider
    (later) t where "ns n = Some (Scalar (PStr t))" and "(C, [t]) \<in> set evs"
    | (here) "ns n = (ns0(dest_of (fst ev) \<mapsto> v)) n" and "C \<notin> set (map fst evs)"
    by blast
  then show ?case
  proof cases
    case later
    then show ?thesis by auto
  next
    case here
    show ?thesis
    proof (cases "fst ev = C")
      case True
      with ar assms(1,2) have "length (snd ev) = 1" by (simp add: arity_ok_def)
      then obtain t where t: "snd ev = [t]" by (cases "snd ev") auto
      with True assms(1,2) have "v = Scalar (PStr t)" by (simp add: v_def get_values_def)
      moreover from True t have "ev = (C, [t])" by (simp add: prod_eq_iff)
      ultimately show ?thesis using here(1) True assms(3) by auto
    next
      case False
      with Cons.prems(2) have "\<not> stores_under (fst ev) n" by auto
      with nh have "dest_of (fst ev) \<noteq> n" by (simp add: stores_under_def)
      with here False show ?thesis by auto
    qed
  qed
qed

lemma parse_args_Parsed:
  assumes "parse_args scan p h argv0 args = Parsed ns"
  shows "run_events p h argv0 (fst (scan (actions p) args))
           (init_namespace (actions p) Map.empty) = Parsed ns \<and>
         required_met (actions p) (fst (scan (actions p) args))"
  using assms
  by (auto simp: parse_args_def failure_def split: outcome.splits option.splits if_splits)

lemma is_parsed_eq: "is_parsed r \<Longrightarrow> \<exists>ns. r = Parsed ns \<and> parsed_value r = ns"
  by (cases r) (auto simp: is_parsed_def parsed_value_def)

section \<open>Claim C7: the default of a valued option\<close>

text \<open>
  Claim C7, as stated: for every valued option with a \<^verbatim>\<open>default\<close>, a parse of a command
  line on which the option does not appear yields the default under its destination
  name. The module does not keep destination names apart: with the valued option
  \<^verbatim>\<open>-o/--out\<close> (name \<^verbatim>\<open>outfile\<close>, default \<^verbatim>\<open>a.out\<close>) and the positional \<^verbatim>\<open>outfile\<close> in one
  list, the command line \<^verbatim>\<open>x.txt\<close> does not mention the option and the mapping holds
  \<^verbatim>\<open>x.txt\<close> under \<^verbatim>\<open>outfile\<close>.
\<close>

theorem absent_option_counterexample:
  "fst (construct [10, 5]) = None \<and>
   field (sample_store 10) ''type'' = PStr ''normal'' \<and>
   field (sample_store 10) ''name'' = PStr ''outfile'' \<and>
   field (sample_store 10) ''default'' = PStr ''a.out'' \<and>
   spec_call (sample_store 10) \<notin>
     set (map fst (fst (simple_scanner (actions (snd (snd (construct [10, 5])))) [''x.txt'']))) \<and>
   is_parsed (example_parse [10, 5] [''x.txt'']) \<and>
   parsed_value (example_parse [10, 5] [''x.txt'']) (PStr ''outfile'')
     = Some (Scalar (PStr ''x.txt'')) \<and>
   parsed_value (example_parse [10, 5] [''x.txt'']) (PStr ''outfile'')
     \<noteq> Some (Scalar (PStr ''a.out''))"
  by code_simp

text \<open>
  Claim C7, amended: for a valued option whose destination name no other registration
  of the parser stores under, a parse that returns and in which the option is not fired
  holds under that name the descriptor's \<^verbatim>\<open>default\<close>, and \<^verbatim>\<open>None\<close> when the descriptor has
  no \<^verbatim>\<open>default\<close> (\<open>field\<close> reads an absent key as \<^verbatim>\<open>None\<close>).
\<close>

theorem absent_option_default:
  assumes "ArgumentParser_init eng opts m_err x_err m_use x_use h = (None, h', p)"
    and "i < length opts"
    and "dict_get (h (opts ! i)) ''type'' = Inr (PStr ''normal'')"
    and "parse_args scan p h' argv0 args = Parsed ns"
    and "spec_call (h (opts ! i)) \<notin> set (map fst (fst (scan (actions p) args)))"
    and "\<forall>c \<in> set (actions p).
           stores_under c (field (h (opts ! i)) ''name'') \<longrightarrow> c = spec_call (h (opts ! i))"
  shows "ns (field (h (opts ! i)) ''name'') = Some (Scalar (field (h (opts ! i)) ''default''))"
proof -
  define C where "C = spec_call (h (opts ! i))"
  define n where "n = field (h (opts ! i)) ''name''"
  from assms(3) have C: "C = \<lparr>c_flags = [field (h (opts ! i)) ''short'', field (h (opts ! i)) ''long''],
      c_nargs = Some (PStr ''?''), c_action = Store, c_dest = Some n,
      c_default = Some (field (h (opts ! i)) ''default'')\<rparr>"
    by (simp add: C_def n_def spec_call_def field_def)
  then have st: "stores_under C n" and df: "default_of C = field (h (opts ! i)) ''default''"
    by (simp_all add: stores_under_def dest_of_def default_of_def)
  have mem: "C \<in> set (actions p)"
    unfolding C_def by (rule init_actions [OF assms(1,2)])
  from assms(6) have uniq: "\<forall>c \<in> set (actions p). stores_under c n \<longrightarrow> c = C"
    by (simp add: C_def n_def)
  have start: "init_namespace (actions p) Map.empty n = Some (Scalar (default_of C))"
    by (rule init_namespace_default [OF mem st uniq]) simp
  from parse_args_Parsed [OF assms(4)] have
    run: "run_events p h' argv0 (fst (scan (actions p) args))
            (init_namespace (actions p) Map.empty) = Parsed ns"
    by simp
  have "\<forall>ev \<in> set (fst (scan (actions p) args)). \<not> stores_under (fst ev) n"
  proof
    fix ev
    assume ev: "ev \<in> set (fst (scan (actions p) args))"
    with run_events_checked [OF run] have "fst ev \<in> set (actions p)" by blast
    moreover from ev have "fst ev \<in> set (map fst (fst (scan (actions p) args)))" by simp
    with assms(5) have "fst ev \<noteq> C" unfolding C_def by metis
    ultimately show "\<not> stores_under (fst ev) n" using uniq by blast
  qed
  from run_events_untouched [OF run this] start df show ?thesis
    by (simp add: n_def)
qed

theorem absent_option_default_witness:
  "fst (construct [10, 3, 4]) = None \<and>
   dict_get (sample_store ([10, 3, 4] ! 0)) ''type'' = Inr (PStr ''normal'') \<and>
   is_parsed (example_parse [10, 3, 4] [''in1'', ''in2'']) \<and>
   spec_call (sample_store ([10, 3, 4] ! 0)) \<notin>
     set (map fst (fst (simple_scanner (actions (snd (snd (construct [10, 3, 4]))))
       [''in1'', ''in2'']))) \<and>
   parsed_value (example_parse [10, 3, 4] [''in1'', ''in2'']) (PStr ''outfile'')
     = Some (Scalar (PStr ''a.out''))"
proof -
  let ?p = "snd (snd (construct [10, 3, 4]))"
  let ?h = "fst (snd (construct [10, 3, 4]))"
  have a0: "fst (construct [10, 3, 4]) = None" by code_simp
  have a: "ArgumentParser_init strict_engine [10, 3, 4] MSG_SYNTAX_ERROR EXITCODE_ERROR
             MSG_USAGE_HELP EXITCODE_USAGE sample_store = (None, ?h, ?p)"
    using a0 by (simp add: construct_def prod_eq_iff)
  have b: "(0::nat) < length [10, 3, 4 :: addr]" by simp
  have c: "dict_get (sample_store ([10, 3, 4] ! 0)) ''type'' = Inr (PStr ''normal'')"
    by code_simp
  have d0: "is_parsed (example_parse [10, 3, 4] [''in1'', ''in2''])" by code_simp
  from is_parsed_eq [OF d0] obtain ns where
    d: "parse_args simple_scanner ?p ?h ''/usr/bin/prog'' [''in1'', ''in2''] = Parsed ns" and
    v: "parsed_value (example_parse [10, 3, 4] [''in1'', ''in2'']) = ns"
    by (auto simp: example_parse_def)
  have e: "spec_call (sample_store ([10, 3, 4] ! 0)) \<notin>
             set (map fst (fst (simple_scanner (actions ?p) [''in1'', ''in2''])))"
    by code_simp
  have f: "\<forall>c \<in> set (actions ?p).
             stores_under c (field (sample_store ([10, 3, 4] ! 0)) ''name'') \<longrightarrow>
             c = spec_call (sample_store ([10, 3, 4] ! 0))"
    by code_simp
  have g: "field (sample_store ([10, 3, 4] ! 0)) ''name'' = PStr ''outfile''" by code_simp
  have k: "field (sample_store ([10, 3, 4] ! 0)) ''default'' = PStr ''a.out''" by code_simp
  from absent_option_default [OF a b c d e f] g k v
  have "parsed_value (example_parse [10, 3, 4] [''in1'', ''in2'']) (PStr ''outfile'')
          = Some (Scalar (PStr ''a.out''))"
    by simp
  with a0 c d0 e show ?thesis by blast
qed

section \<open>Claim C4: a positional of count 1\<close>

text \<open>
  Claim C4, as stated: for every positional with \<^verbatim>\<open>nargs\<close> the integer 1, a successful
  parse stores a scalar under the descriptor's name, never a one-element list. With a
  second positional of the same name and \<^verbatim>\<open>nargs "+"\<close> after it, the command line
  \<^verbatim>\<open>a b\<close> is parsed and the mapping holds the one-element sequence of \<^verbatim>\<open>b\<close> under
  that name.
\<close>

theorem positional_one_counterexample:
  "fst (construct [11, 4]) = None \<and>
   field (sample_store 11) ''type'' = PStr ''positional'' \<and>
   field (sample_store 11) ''name'' = PStr ''infile'' \<and>
   field (sample_store 11) ''nargs'' = PInt 1 \<and>
   is_parsed (example_parse [11, 4] [''a'', ''b'']) \<and>
   parsed_value (example_parse [11, 4] [''a'', ''b'']) (PStr ''infile'')
     = Some (Sequence [''b''])"
  by code_simp

text \<open>
  Claim C4, amended: for a positional with \<^verbatim>\<open>nargs\<close> the integer 1 whose name no other
  registration of the parser stores under, a parse that returns holds under that name
  a scalar, the one token its registration consumed, and not a sequence.
\<close>

theorem positional_one_scalar:
  assumes "ArgumentParser_init eng opts m_err x_err m_use x_use h = (None, h', p)"
    and "i < length opts"
    and "dict_get (h (opts ! i)) ''type'' = Inr (PStr ''positional'')"
    and "dict_get (h (opts ! i)) ''nargs'' = Inr (PInt 1)"
    and "parse_args scan p h' argv0 args = Parsed ns"
    and "\<forall>c \<in> set (actions p).
           stores_under c (field (h (opts ! i)) ''name'') \<longrightarrow> c = spec_call (h (opts ! i))"
  shows "\<exists>t. ns (field (h (opts ! i)) ''name'') = Some (Scalar (PStr t)) \<and>
             (spec_call (h (opts ! i)), [t]) \<in> set (fst (scan (actions p) args))"
proof -
  define C where "C = spec_call (h (opts ! i))"
  define n where "n = field (h (opts ! i)) ''name''"
  define evs where "evs = fst (scan (actions p) args)"
  from assms(3,4) have C: "C = \<lparr>c_flags = [n], c_nargs = Some PNone, c_action = Store,
      c_dest = None, c_default = None\<rparr>"
    by (simp add: C_def n_def spec_call_def field_def is_int_one_def)
  then have st: "c_action C = Store" and na: "c_nargs C = Some PNone" and de: "dest_of C = n"
    and rq: "required C"
    by (simp_all add: dest_of_def required_def)
  have mem: "C \<in> set (actions p)"
    unfolding C_def by (rule init_actions [OF assms(1,2)])
  from parse_args_Parsed [OF assms(5)] have
    run: "run_events p h' argv0 evs (init_namespace (actions p) Map.empty) = Parsed ns" and
    met: "required_met (actions p) evs"
    by (simp_all add: evs_def)
  from met mem rq have fired: "C \<in> set (map fst evs)"
    by (simp add: required_met_def list_all_iff)
  have "\<forall>ev \<in> set evs. stores_under (fst ev) n \<longrightarrow> fst ev = C"
  proof (intro ballI impI)
    fix ev
    assume "ev \<in> set evs" and s: "stores_under (fst ev) n"
    with run_events_checked [OF run] have "fst ev \<in> set (actions p)" by blast
    with s assms(6) show "fst ev = C" by (simp add: C_def n_def)
  qed
  from run_events_scalar [OF st na de run this] fired
  show ?thesis by (auto simp: C_def n_def evs_def)
qed

theorem positional_one_scalar_witness:
  "fst (construct cmdoptions) = None \<and>
   dict_get (sample_store (cmdoptions ! 4)) ''type'' = Inr (PStr ''positional'') \<and>
   dict_get (sample_store (cmdoptions ! 4)) ''nargs'' = Inr (PInt 1) \<and>
   is_parsed (example_parse cmdoptions [''-p'', ''in1'', ''in2'', ''out'']) \<and>
   parsed_value (example_parse cmdoptions [''-p'', ''in1'', ''in2'', ''out'']) (PStr ''outfile'')
     = Some (Scalar (PStr ''out''))"
proof -
  let ?p = "snd (snd (construct cmdoptions))"
  let ?h = "fst (snd (construct cmdoptions))"
  let ?args = "[''-p'', ''in1'', ''in2'', ''out'']"
  have a0: "fst (construct cmdoptions) = None" by code_simp
  have a: "ArgumentParser_init strict_engine cmdoptions MSG_SYNTAX_ERROR EXITCODE_ERROR
             MSG_USAGE_HELP EXITCODE_USAGE sample_store = (None, ?h, ?p)"
    using a0 by (simp add: construct_def prod_eq_iff)
  have b: "(4::nat) < length cmdoptions" by code_simp
  have c: "dict_get (sample_store (cmdoptions ! 4)) ''type'' = Inr (PStr ''positional'')"
    by code_simp
  have c': "dict_get (sample_store (cmdoptions ! 4)) ''nargs'' = Inr (PInt 1)"
    by code_simp
  have d0: "is_parsed (example_parse cmdoptions ?args)" by code_simp
  from is_parsed_eq [OF d0] obtain ns where
    d: "parse_args simple_scanner ?p ?h ''/usr/bin/prog'' ?args = Parsed ns" and
    v: "parsed_value (example_parse cmdoptions ?args) = ns"
    by (auto simp: example_parse_def)
  have f: "\<forall>c \<in> set (actions ?p).
             stores_under c (field (sample_store (cmdoptions ! 4)) ''name'') \<longrightarrow>
             c = spec_call (sample_store (cmdoptions ! 4))"
    by code_simp
  have g: "field (sample_store (cmdoptions ! 4)) ''name'' = PStr ''outfile''" by code_simp
  from positional_one_scalar [OF a b c c' d f] obtain t where
    "ns (PStr ''outfile'') = Some (Scalar (PStr t))" by (auto simp: g)
  moreover have "parsed_value (example_parse cmdoptions ?args) (PStr ''outfile'')
                   = Some (Scalar (PStr ''out''))" by code_simp
  ultimately have "parsed_value (example_parse cmdoptions ?args) (PStr ''outfile'')
                     = Some (Scalar (PStr ''out''))" using v by simp
  with a0 c c' d0 show ?thesis by blast
qed

end
